theory Spec2Isabelle
  imports Main "HOL-Library.Sublist"
begin

section \<open>Strings\<close>

text \<open>
  A JavaScript string is modelled as a \<^typ>\<open>string\<close>. The program only ever splits at
  the ASCII full stop, compares with ASCII literals and lower-cases; \<open>toLowerCase\<close> is
  modelled on the ASCII letters and leaves every other character alone. (Of the
  non-ASCII characters the only ones whose lower case contains an ASCII letter are
  U+212A, giving k, and U+0130, giving i followed by a combining mark; neither can
  produce one of the literals png, jpg, jpeg, webp, zip, so the comparisons below
  come out as in the browser.)
\<close>

definition toLowerChar :: "char \<Rightarrow> char" where
  "toLowerChar c =
     (case map_of (zip ''ABCDEFGHIJKLMNOPQRSTUVWXYZ'' ''abcdefghijklmnopqrstuvwxyz'') c of
        None \<Rightarrow> c
      | Some l \<Rightarrow> l)"

definition toLowerCase :: "string \<Rightarrow> string" where
  "toLowerCase s = map toLowerChar s"

text \<open>\<open>s.split('.')\<close>: the pieces between the separators; never an empty array.\<close>

fun split :: "char \<Rightarrow> string \<Rightarrow> string list" where
  "split sep [] = [[]]"
| "split sep (c # cs) =
     (if c = sep then [] # split sep cs
      else (case split sep cs of
              [] \<Rightarrow> [[c]]
            | p # ps \<Rightarrow> (c # p) # ps))"

text \<open>\<open>parts.join('.')\<close>; the empty array joins to the empty string.\<close>

fun join :: "char \<Rightarrow> string list \<Rightarrow> string" where
  "join sep [] = []"
| "join sep [p] = p"
| "join sep (p # q # ps) = p @ sep # join sep (q # ps)"

text \<open>\<open>s.endsWith(t)\<close> is \<^const>\<open>suffix\<close>. \<open>s.match(/t/)\<close> for a pattern \<open>t\<close> without
  metacharacters is truthy exactly when \<open>t\<close> occurs in \<open>s\<close>.\<close>

fun occursIn :: "string \<Rightarrow> string \<Rightarrow> bool" where
  "occursIn t [] = (t = [])"
| "occursIn t (c # cs) = (prefix t (c # cs) \<or> occursIn t cs)"

text \<open>The decimal rendering of a counter inside a template literal.\<close>

definition digit :: "nat \<Rightarrow> char" where
  "digit d = ''0123456789'' ! d"

fun showNat :: "nat \<Rightarrow> string" where
  "showNat n = (if n < 10 then [digit n] else showNat (n div 10) @ [digit (n mod 10)])"

text \<open>A JavaScript \<open>Set\<close> of strings: insertion ordered, without duplicates.
  \<open>S.has(x)\<close> is \<open>x \<in> set S\<close>, \<open>S.size\<close> is \<open>length S\<close>, \<open>[...S]\<close> is \<open>S\<close>.\<close>

definition setAdd :: "string \<Rightarrow> string list \<Rightarrow> string list" where
  "setAdd x S = (if x \<in> set S then S else S @ [x])"

fun newSet :: "string list \<Rightarrow> string list \<Rightarrow> string list" where
  "newSet S [] = S"
| "newSet S (x # xs) = newSet (setAdd x S) xs"

section \<open>Data model\<close>

type_synonym bytes = "nat list"

record blob =
  blob_bytes :: bytes
  blob_type :: string

text \<open>A \<open>File\<close> of the file input: \<open>file.name\<close>, \<open>file.type\<close> and its content.
  A \<open>File\<close> is a \<open>Blob\<close>; \<open>blobOfFile\<close> is that view of it.\<close>

record fileObject =
  file_name :: string
  file_type :: string
  file_bytes :: bytes

definition blobOfFile :: "fileObject \<Rightarrow> blob" where
  "blobOfFile f = \<lparr>blob_bytes = file_bytes f, blob_type = file_type f\<rparr>"

text \<open>An entry of \<open>zip.files\<close>: its directory flag and what
  \<open>zipEntry.async('arraybuffer')\<close> resolves to (\<open>None\<close> when it rejects).\<close>

record zipEntry =
  dir :: bool
  async_arraybuffer :: "bytes option"

text \<open>The elements of \<open>originalFiles\<close> and of \<open>convertedResults\<close>.\<close>

record sourceItem =
  blob :: blob
  originalName :: string
  format :: string

record convertedResult =
  result_blob :: blob
  filename :: string

text \<open>
  Every message of the program is a file or entry name followed by one of six fixed
  Japanese sentences. A message is modelled by the sentence and the name:
  \<^item> \<open>UnsupportedExtension\<close>: "... is an unsupported extension" (lines 83 and 120);
  \<^item> \<open>CannotProcess\<close>: "... cannot be processed" (line 89);
  \<^item> \<open>UnzipFailed\<close>: "decompressing ... failed" (line 100);
  \<^item> \<open>UnsupportedImageFormat\<close>: "... is an unsupported image format" (line 112);
  \<^item> \<open>ZipProblem\<close>: "there was a problem while processing the ZIP ..." (line 118);
  \<^item> \<open>ConversionFailed\<close>: "converting ... failed" (line 181).
\<close>

datatype message =
    UnsupportedExtension string
  | CannotProcess string
  | UnzipFailed string
  | UnsupportedImageFormat string
  | ZipProblem string
  | ConversionFailed string

text \<open>The children of \<open>outputContainer\<close>: an \<open>image-result\<close> block (the object URL
  stands for the blob it was created from) or an \<open>error-result\<close> block.\<close>

datatype node =
    ImageResult blob string
  | ErrorResult message

text \<open>The \<open>select\<close> element \<open>fromFormat\<close>.\<close>

record selectElement =
  sel_value :: string
  sel_disabled :: bool

text \<open>The globals of the script and the parts of the page it reads and writes.\<close>

record page =
  originalFiles :: "sourceItem list"
  errorResults :: "message list"
  convertedResults :: "convertedResult list"
  outputContainer :: "node list"
  fromFormat :: selectElement
  toFormat :: string
  convertBtn_disabled :: bool
  downloadAllBtn_disabled :: bool

text \<open>A decoded \<open>Image\<close> and a \<open>canvas\<close> with what has been drawn on it at \<open>(0, 0)\<close>.\<close>

record image =
  img_width :: nat
  img_height :: nat
  img_pixels :: "nat list"

record canvas =
  canvas_width :: nat
  canvas_height :: nat
  canvas_drawn :: "image list"

text \<open>
  What the script asks of the browser and of JSZip, as functions of their inputs;
  \<open>None\<close> is the rejected promise, the \<open>onerror\<close> event or the \<open>null\<close> callback
  argument:
  \<^item> \<open>arrayBuffer\<close>: \<open>file.arrayBuffer()\<close>;
  \<^item> \<open>loadAsync\<close>: \<open>JSZip.loadAsync\<close>, giving \<open>zip.files\<close> in the order of \<open>Object.keys\<close>;
  \<^item> \<open>readAsDataURL\<close>: the \<open>FileReader\<close> of \<open>convertImageFile\<close>;
  \<^item> \<open>loadImage\<close>: setting \<open>img.src\<close>, then \<open>onload\<close> or \<open>onerror\<close>;
  \<^item> \<open>toBlob\<close>: \<open>canvas.toBlob\<close> with a MIME type;
  \<^item> \<open>readAsArrayBuffer\<close>: the \<open>FileReader\<close> of \<open>blobToArrayBuffer\<close>.
\<close>

record browser =
  arrayBuffer :: "fileObject \<Rightarrow> bytes option"
  loadAsync :: "bytes \<Rightarrow> (string \<times> zipEntry) list option"
  readAsDataURL :: "blob \<Rightarrow> string option"
  loadImage :: "string \<Rightarrow> image option"
  toBlob :: "canvas \<Rightarrow> string \<Rightarrow> blob option"
  readAsArrayBuffer :: "blob \<Rightarrow> bytes option"

record formatInfo =
  mime_of :: string
  ext_of :: string

definition imageMimeMap :: "(string \<times> formatInfo) list" where
  "imageMimeMap =
     [(''png'', \<lparr>mime_of = ''image/png'', ext_of = ''png''\<rparr>),
      (''jpeg'', \<lparr>mime_of = ''image/jpeg'', ext_of = ''jpg''\<rparr>),
      (''webp'', \<lparr>mime_of = ''image/webp'', ext_of = ''webp''\<rparr>)]"

definition supportedExtensions :: "string list" where
  "supportedExtensions = [''png'', ''jpg'', ''jpeg'', ''webp'']"

section \<open>Reading the selected files\<close>

definition clearResults :: "page \<Rightarrow> page" where
  "clearResults s =
     s\<lparr>outputContainer := [], convertedResults := [], errorResults := [], originalFiles := []\<rparr>"

definition isZipFile :: "fileObject \<Rightarrow> bool" where
  "isZipFile f \<longleftrightarrow>
     suffix ''.zip'' (toLowerCase (file_name f)) \<or> file_type f = ''application/zip''"

definition isImageFileSupported :: "fileObject \<Rightarrow> bool" where
  "isImageFileSupported f \<longleftrightarrow>
     occursIn ''image/png'' (file_type f) \<or> occursIn ''image/jpeg'' (file_type f)
     \<or> occursIn ''image/webp'' (file_type f)"

definition getExtension :: "string \<Rightarrow> string" where
  "getExtension fname =
     (let parts = split (CHR ''.'') fname
      in if length parts \<le> 1 then [] else parts ! (length parts - 1))"

definition guessMimeTypeFromExt :: "string \<Rightarrow> string" where
  "guessMimeTypeFromExt e =
     (if e = ''png'' then ''image/png''
      else if e = ''jpg'' \<or> e = ''jpeg'' then ''image/jpeg''
      else if e = ''webp'' then ''image/webp''
      else [])"

definition pushError :: "page \<Rightarrow> message \<Rightarrow> page" where
  "pushError s m = s\<lparr>errorResults := errorResults s @ [m]\<rparr>"

definition pushOriginal :: "page \<Rightarrow> sourceItem \<Rightarrow> page" where
  "pushOriginal s it = s\<lparr>originalFiles := originalFiles s @ [it]\<rparr>"

text \<open>The body of the loop of \<open>handleZipFile\<close> for one key of \<open>zip.files\<close>. It either
  completes (\<open>Normal\<close>) or throws inside the \<open>try\<close> (\<open>Thrown\<close>); both carry the globals as
  they are at that moment.\<close>

datatype completion = Normal page | Thrown page

definition handleZipEntry :: "page \<Rightarrow> string \<times> zipEntry \<Rightarrow> completion" where
  "handleZipEntry s entry =
     (let entryName = fst entry; zipEntry = snd entry in
      if dir zipEntry then Normal s
      else
        let e = toLowerCase (getExtension entryName) in
        if e \<notin> set supportedExtensions then Normal (pushError s (UnsupportedExtension entryName))
        else
          let mimeType = guessMimeTypeFromExt e in
          if mimeType = [] then Normal (pushError s (CannotProcess entryName))
          else
            (case async_arraybuffer zipEntry of
               None \<Rightarrow> Thrown s
             | Some fileData \<Rightarrow>
                 Normal (pushOriginal s
                   \<lparr>blob = \<lparr>blob_bytes = fileData, blob_type = mimeType\<rparr>,
                    originalName = entryName,
                    format = (if e = ''jpg'' then ''jpeg'' else (if e = ''jpeg'' then ''jpeg'' else e))\<rparr>)))"

fun handleZipEntries :: "page \<Rightarrow> (string \<times> zipEntry) list \<Rightarrow> completion" where
  "handleZipEntries s [] = Normal s"
| "handleZipEntries s (entry # entries) =
     (case handleZipEntry s entry of
        Thrown s' \<Rightarrow> Thrown s'
      | Normal s' \<Rightarrow> handleZipEntries s' entries)"

definition handleZipFile :: "browser \<Rightarrow> page \<Rightarrow> fileObject \<Rightarrow> page" where
  "handleZipFile br s f =
     (case arrayBuffer br f of
        None \<Rightarrow> pushError s (UnzipFailed (file_name f))
      | Some buf \<Rightarrow>
          (case loadAsync br buf of
             None \<Rightarrow> pushError s (UnzipFailed (file_name f))
           | Some files \<Rightarrow>
               (case handleZipEntries s files of
                  Thrown s' \<Rightarrow> pushError s' (UnzipFailed (file_name f))
                | Normal s' \<Rightarrow> s')))"

definition handleRegularFile :: "page \<Rightarrow> fileObject \<Rightarrow> page" where
  "handleRegularFile s f =
     (let e = toLowerCase (getExtension (file_name f)) in
      if isImageFileSupported f then
        (if file_type f = ''image/png'' then
           pushOriginal s \<lparr>blob = blobOfFile f, originalName = file_name f, format = ''png''\<rparr>
         else if file_type f = ''image/jpeg'' then
           pushOriginal s \<lparr>blob = blobOfFile f, originalName = file_name f, format = ''jpeg''\<rparr>
         else if file_type f = ''image/webp'' then
           pushOriginal s \<lparr>blob = blobOfFile f, originalName = file_name f, format = ''webp''\<rparr>
         else pushError s (UnsupportedImageFormat (file_name f)))
      else if e = ''zip'' then pushError s (ZipProblem (file_name f))
      else pushError s (UnsupportedExtension (file_name f)))"

definition setFromFormatOption :: "page \<Rightarrow> page" where
  "setFromFormatOption s =
     (if length (originalFiles s) = 0 then
        s\<lparr>fromFormat := \<lparr>sel_value = ''mixed'', sel_disabled = True\<rparr>\<rparr>
      else
        let formats = newSet [] (map format (originalFiles s)) in
        if length formats = 1 then
          s\<lparr>fromFormat := \<lparr>sel_value = formats ! 0, sel_disabled = True\<rparr>\<rparr>
        else s\<lparr>fromFormat := \<lparr>sel_value = ''mixed'', sel_disabled = True\<rparr>\<rparr>)"

definition appendResult :: "page \<Rightarrow> blob \<Rightarrow> string \<Rightarrow> page" where
  "appendResult s url fname = s\<lparr>outputContainer := outputContainer s @ [ImageResult url fname]\<rparr>"

definition appendErrorResult :: "page \<Rightarrow> message \<Rightarrow> page" where
  "appendErrorResult s msg = s\<lparr>outputContainer := outputContainer s @ [ErrorResult msg]\<rparr>"

text \<open>The two loops of the \<open>change\<close> handler of \<open>inputFiles\<close>, and the handler.\<close>

fun handleFiles :: "browser \<Rightarrow> page \<Rightarrow> fileObject list \<Rightarrow> page" where
  "handleFiles br s [] = s"
| "handleFiles br s (f # fs) =
     handleFiles br (if isZipFile f then handleZipFile br s f else handleRegularFile s f) fs"

fun appendErrorResults :: "page \<Rightarrow> message list \<Rightarrow> page" where
  "appendErrorResults s [] = s"
| "appendErrorResults s (err # errs) = appendErrorResults (appendErrorResult s err) errs"

definition inputFilesChange :: "browser \<Rightarrow> page \<Rightarrow> fileObject list \<Rightarrow> page" where
  "inputFilesChange br s files =
     (let s0 = clearResults s in
      if length files = 0 then s0\<lparr>convertBtn_disabled := True, downloadAllBtn_disabled := True\<rparr>
      else
        let s1 = s0\<lparr>originalFiles := [], errorResults := [], convertedResults := []\<rparr>;
            s2 = handleFiles br s1 files;
            s3 = setFromFormatOption s2;
            s4 = appendErrorResults s3 (errorResults s3)
        in if length (originalFiles s4) = 0
           then s4\<lparr>convertBtn_disabled := True, downloadAllBtn_disabled := True\<rparr>
           else s4\<lparr>convertBtn_disabled := False, downloadAllBtn_disabled := True\<rparr>)"

section \<open>Converting\<close>

definition drawImage :: "canvas \<Rightarrow> image \<Rightarrow> canvas" where
  "drawImage c img = c\<lparr>canvas_drawn := canvas_drawn c @ [img]\<rparr>"

text \<open>\<open>convertImageFile\<close>: the value its promise resolves with, \<open>None\<close> for \<open>null\<close>.\<close>

definition convertImageFile :: "browser \<Rightarrow> blob \<Rightarrow> string \<Rightarrow> blob option" where
  "convertImageFile br fileBlob outputMime =
     (case readAsDataURL br fileBlob of
        None \<Rightarrow> None
      | Some url \<Rightarrow>
          (case loadImage br url of
             None \<Rightarrow> None
           | Some img \<Rightarrow>
               toBlob br
                 (drawImage
                    \<lparr>canvas_width = img_width img, canvas_height = img_height img, canvas_drawn = []\<rparr>
                    img)
                 outputMime))"

definition changeExtension :: "string \<Rightarrow> string \<Rightarrow> string" where
  "changeExtension fname newExt =
     (let parts = split (CHR ''.'') fname
      in if length parts \<le> 1 then fname @ ''.'' @ newExt
         else join (CHR ''.'') (parts[length parts - 1 := newExt]))"

text \<open>The loop of the \<open>click\<close> handler of \<open>convertBtn\<close>, and the handler. Reading
  \<open>imageMimeMap[toKey].mime\<close> for a key that is not in the table throws (the keys every
  object inherits, such as \<open>constructor\<close>, are left aside: the statements below are about
  the three keys of the table).\<close>

fun convertFiles :: "browser \<Rightarrow> string \<Rightarrow> string \<Rightarrow> page \<Rightarrow> sourceItem list \<Rightarrow> page" where
  "convertFiles br toMime toExt s [] = s"
| "convertFiles br toMime toExt s (fileObj # rest) =
     (case convertImageFile br (blob fileObj) toMime of
        Some resultBlob \<Rightarrow>
          (let newFileName = changeExtension (originalName fileObj) toExt;
               s1 = appendResult s resultBlob newFileName;
               s2 = s1\<lparr>convertedResults :=
                        convertedResults s1 @ [\<lparr>result_blob = resultBlob, filename = newFileName\<rparr>]\<rparr>
           in convertFiles br toMime toExt s2 rest)
      | None \<Rightarrow>
          convertFiles br toMime toExt
            (appendErrorResult s (ConversionFailed (originalName fileObj))) rest)"

datatype error = TypeError

definition convertBtnClick :: "browser \<Rightarrow> page \<Rightarrow> error + page" where
  "convertBtnClick br s =
     (if length (originalFiles s) = 0 then Inr s
      else
        let s1 = s\<lparr>outputContainer := [], convertedResults := []\<rparr> in
        (case map_of imageMimeMap (toFormat s1) of
           None \<Rightarrow> Inl TypeError
         | Some info \<Rightarrow>
             let s2 = convertFiles br (mime_of info) (ext_of info) s1 (originalFiles s1)
             in Inr (if length (convertedResults s2) > 0
                     then s2\<lparr>downloadAllBtn_disabled := False\<rparr> else s2)))"

section \<open>Packing\<close>

text \<open>The \<open>do ... while\<close> loop of \<open>getUniqueFilename\<close>; the counter is rendered in decimal
  by the template literal. The counter is a natural number here; the loop stops at the
  first counter whose name is unused, which is at most the number of used names plus one
  (\<open>getUniqueFilename_loop_bound\<close> below), far below the range in which a JavaScript
  number stops being exact.\<close>

function getUniqueFilename_loop :: "string \<Rightarrow> string \<Rightarrow> string list \<Rightarrow> nat \<Rightarrow> string" where
  "getUniqueFilename_loop baseName e usedNames counter =
     (let newName = baseName @ ''('' @ showNat counter @ '').'' @ e
      in if newName \<in> set usedNames
         then getUniqueFilename_loop baseName e usedNames (counter + 1)
         else newName)"
  by pat_completeness auto

definition getUniqueFilename :: "string \<Rightarrow> string list \<Rightarrow> string" where
  "getUniqueFilename fname usedNames =
     (if fname \<notin> set usedNames then fname
      else
        let parts = split (CHR ''.'') fname;
            e = last parts;
            parts' = butlast parts;
            baseName = (if join (CHR ''.'') parts' = [] then ''file'' else join (CHR ''.'') parts')
        in getUniqueFilename_loop baseName e usedNames 1)"

text \<open>The loop of the \<open>click\<close> handler of \<open>downloadAllBtn\<close>: the set of used names and the
  calls of \<open>zip.file\<close> so far, in order. A rejected \<open>blobToArrayBuffer\<close> ends the handler.\<close>

fun packFiles ::
  "browser \<Rightarrow> string list \<Rightarrow> (string \<times> bytes) list \<Rightarrow> convertedResult list
     \<Rightarrow> (string list \<times> (string \<times> bytes) list) option" where
  "packFiles br usedNames zipFiles [] = Some (usedNames, zipFiles)"
| "packFiles br usedNames zipFiles (result # rest) =
     (case readAsArrayBuffer br (result_blob result) of
        None \<Rightarrow> None
      | Some buf \<Rightarrow>
          (let uniqueName = getUniqueFilename (filename result) usedNames
           in packFiles br (setAdd uniqueName usedNames) (zipFiles @ [(uniqueName, buf)]) rest))"

text \<open>What the handler does: nothing, fail on a read, or offer the archive with the
  files given to \<open>zip.file\<close> under the fixed download name.\<close>

datatype download = NoDownload | ReadFailed | Download string "(string \<times> bytes) list"

definition downloadAllBtnClick :: "browser \<Rightarrow> page \<Rightarrow> download" where
  "downloadAllBtnClick br s =
     (if length (convertedResults s) = 0 then NoDownload
      else
        (case packFiles br [] [] (convertedResults s) of
           None \<Rightarrow> ReadFailed
         | Some (usedNames, zipFiles) \<Rightarrow> Download ''converted_images.zip'' zipFiles))"

section \<open>Observations used in the statements\<close>

text \<open>The file or entry a message names, and the messages shown in the output
  container.\<close>

fun messageName :: "message \<Rightarrow> string" where
  "messageName (UnsupportedExtension n) = n"
| "messageName (CannotProcess n) = n"
| "messageName (UnzipFailed n) = n"
| "messageName (UnsupportedImageFormat n) = n"
| "messageName (ZipProblem n) = n"
| "messageName (ConversionFailed n) = n"

fun shownErrors :: "node list \<Rightarrow> message list" where
  "shownErrors [] = []"
| "shownErrors (ImageResult b n # ns) = shownErrors ns"
| "shownErrors (ErrorResult m # ns) = m # shownErrors ns"

text \<open>What the loop of the \<open>convertBtn\<close> handler records for one item under a target
  format: the result, if the conversion gave one, and the block it shows.\<close>

definition resultOf :: "browser \<Rightarrow> formatInfo \<Rightarrow> sourceItem \<Rightarrow> convertedResult option" where
  "resultOf br info it =
     (case convertImageFile br (blob it) (mime_of info) of
        None \<Rightarrow> None
      | Some rb \<Rightarrow>
          Some \<lparr>result_blob = rb, filename = changeExtension (originalName it) (ext_of info)\<rparr>)"

definition nodeOf :: "browser \<Rightarrow> formatInfo \<Rightarrow> sourceItem \<Rightarrow> node" where
  "nodeOf br info it =
     (case resultOf br info it of
        None \<Rightarrow> ErrorResult (ConversionFailed (originalName it))
      | Some r \<Rightarrow> ImageResult (result_blob r) (filename r))"

text \<open>
  The classification of an archive entry as the specification words it: the extension
  is the substring after the last full stop of the name, empty when there is none, and
  is compared case-insensitively; \<open>png\<close>, \<open>jpg\<close>, \<open>jpeg\<close> and \<open>webp\<close> are accepted, \<open>jpg\<close> and
  \<open>jpeg\<close> both with the tag \<open>jpeg\<close>; everything else is rejected.
\<close>

definition afterLastDot :: "string \<Rightarrow> string" where
  "afterLastDot nm =
     (if CHR ''.'' \<in> set nm then rev (takeWhile (\<lambda>c. c \<noteq> CHR ''.'') (rev nm)) else [])"

definition spec_classify :: "string \<Rightarrow> string option" where
  "spec_classify nm =
     (let e = toLowerCase (afterLastDot nm) in
      if e = ''png'' then Some ''png''
      else if e = ''jpg'' \<or> e = ''jpeg'' then Some ''jpeg''
      else if e = ''webp'' then Some ''webp''
      else None)"

text \<open>What an entry of an opened archive contributes under that classification: a work
  item when it is a file with an accepted extension whose bytes can be read, a message
  when it is a file with any other extension, nothing when it is a folder.\<close>

definition entryItem :: "string \<times> zipEntry \<Rightarrow> sourceItem option" where
  "entryItem entry =
     (if dir (snd entry) then None
      else
        (case spec_classify (fst entry) of
           None \<Rightarrow> None
         | Some tag \<Rightarrow>
             (case async_arraybuffer (snd entry) of
                None \<Rightarrow> None
              | Some fileData \<Rightarrow>
                  Some \<lparr>blob = \<lparr>blob_bytes = fileData,
                                 blob_type = guessMimeTypeFromExt (toLowerCase (afterLastDot (fst entry)))\<rparr>,
                        originalName = fst entry, format = tag\<rparr>)))"

definition entryError :: "string \<times> zipEntry \<Rightarrow> message option" where
  "entryError entry =
     (if dir (snd entry) then None
      else
        (case spec_classify (fst entry) of
           None \<Rightarrow> Some (UnsupportedExtension (fst entry))
         | Some tag \<Rightarrow> None))"

section \<open>The states of the page\<close>


section \<open>Example inputs\<close>

text \<open>
  A small browser for the examples: files and blobs can always be read; the one archive
  it opens has a folder, two images and a text file; a blob without bytes does not
  decode, every other blob decodes to a 2 by 1 image; encoding always succeeds.
\<close>

definition exampleBrowser :: browser where
  "exampleBrowser =
     \<lparr>arrayBuffer = (\<lambda>f. Some (file_bytes f)),
      loadAsync = (\<lambda>buf. if buf = [] then None
                          else Some [(''photos/'', \<lparr>dir = True, async_arraybuffer = None\<rparr>),
                                     (''photos/a.PNG'', \<lparr>dir = False, async_arraybuffer = Some [1]\<rparr>),
                                     (''notes.txt'', \<lparr>dir = False, async_arraybuffer = Some [2]\<rparr>),
                                     (''b.jpg'', \<lparr>dir = False, async_arraybuffer = Some [3]\<rparr>)]),
      readAsDataURL = (\<lambda>b. Some (if blob_bytes b = [] then ''corrupt'' else ''ok'')),
      loadImage = (\<lambda>url. if url = ''ok''
                          then Some \<lparr>img_width = 2, img_height = 1, img_pixels = [0, 0]\<rparr>
                          else None),
      toBlob = (\<lambda>c m. Some \<lparr>blob_bytes = [canvas_width c, canvas_height c], blob_type = m\<rparr>),
      readAsArrayBuffer = (\<lambda>b. Some (blob_bytes b))\<rparr>"

definition examplePage :: page where
  "examplePage =
     \<lparr>originalFiles = [], errorResults = [], convertedResults = [], outputContainer = [],
      fromFormat = \<lparr>sel_value = ''png'', sel_disabled = False\<rparr>, toFormat = ''jpeg'',
      convertBtn_disabled = True, downloadAllBtn_disabled = True\<rparr>"

text \<open>The same browser with another archive: four files, the second of which cannot be
  read.\<close>

definition brokenArchiveBrowser :: browser where
  "brokenArchiveBrowser =
     exampleBrowser
       \<lparr>loadAsync := (\<lambda>buf. Some [(''a.png'', \<lparr>dir = False, async_arraybuffer = Some [1]\<rparr>),
                                   (''b.png'', \<lparr>dir = False, async_arraybuffer = None\<rparr>),
                                   (''c.png'', \<lparr>dir = False, async_arraybuffer = Some [3]\<rparr>),
                                   (''notes.txt'', \<lparr>dir = False, async_arraybuffer = Some [4]\<rparr>)])\<rparr>"


section \<open>Facts about strings\<close>

lemma split_not_Nil: "split sep s \<noteq> []"
  by (induction s) (auto split: list.splits)

declare showNat.simps [simp del]

lemma digit_inj: "d < 10 \<Longrightarrow> d' < 10 \<Longrightarrow> digit d = digit d' \<Longrightarrow> d = d'"
proof -
  assume a: "d < 10" "d' < 10" "digit d = digit d'"
  have 1: "d \<in> {0, 1, 2, 3, 4, 5, 6, 7, 8, 9}" using a(1) by auto
  have 2: "d' \<in> {0, 1, 2, 3, 4, 5, 6, 7, 8, 9}" using a(2) by auto
  show ?thesis using 1 2 a(3) by (auto simp: digit_def)
qed

lemma showNat_not_Nil: "showNat n \<noteq> []"
  by (subst showNat.simps) simp

lemma showNat_inj: "showNat m = showNat n \<Longrightarrow> m = n"
proof (induction m arbitrary: n rule: showNat.induct)
  case (1 m)
  show ?case
  proof (cases "m < 10")
    case True
    show ?thesis
    proof (cases "n < 10")
      case n: True
      from "1.prems" True n have "digit m = digit n"
        by (simp add: showNat.simps[of m] showNat.simps[of n])
      with True n show ?thesis by (rule digit_inj[OF _ _])
    next
      case n: False
      from "1.prems" True n show ?thesis
        by (simp add: showNat.simps[of m] showNat.simps[of n] showNat_not_Nil showNat_not_Nil[THEN not_sym])
    qed
  next
    case False
    show ?thesis
    proof (cases "n < 10")
      case n: True
      from "1.prems" False n show ?thesis
        by (simp add: showNat.simps[of m] showNat.simps[of n] showNat_not_Nil showNat_not_Nil[THEN not_sym])
    next
      case n: False
      from "1.prems" False n
      have eq: "showNat (m div 10) = showNat (n div 10)" "digit (m mod 10) = digit (n mod 10)"
        by (simp_all add: showNat.simps[of m] showNat.simps[of n])
      from "1.IH"[OF False eq(1)] have d: "m div 10 = n div 10" .
      have "m mod 10 = n mod 10" using eq(2) by (intro digit_inj) simp_all
      with d show ?thesis by (metis div_mult_mod_eq)
    qed
  qed
qed

text \<open>Only finitely many counters give a used name, so the loop ends.\<close>

lemma finite_candidates: "finite {k. c \<le> k \<and> b @ ''('' @ showNat k @ '').'' @ e \<in> set U}"
proof -
  have "inj (\<lambda>k. b @ ''('' @ showNat k @ '').'' @ e)"
    by (rule injI) (simp add: showNat_inj)
  then have "finite ((\<lambda>k. b @ ''('' @ showNat k @ '').'' @ e) -` set U)"
    by (intro finite_vimageI) simp_all
  then show ?thesis by (rule rev_finite_subset) auto
qed

termination getUniqueFilename_loop
proof (relation "measure (\<lambda>(b, e, U, c). card {k. c \<le> k \<and> b @ ''('' @ showNat k @ '').'' @ e \<in> set U})")
  show "wf (measure (\<lambda>(b, e, U, c). card {k. c \<le> k \<and> b @ ''('' @ showNat k @ '').'' @ e \<in> set U}))"
    by simp
next
  fix baseName e :: string and usedNames :: "string list" and counter :: nat and newName :: string
  assume n: "newName = baseName @ ''('' @ showNat counter @ '').'' @ e" and u: "newName \<in> set usedNames"
  have "{k. counter + 1 \<le> k \<and> baseName @ ''('' @ showNat k @ '').'' @ e \<in> set usedNames}
          \<subset> {k. counter \<le> k \<and> baseName @ ''('' @ showNat k @ '').'' @ e \<in> set usedNames}"
  proof
    show "{k. counter + 1 \<le> k \<and> baseName @ ''('' @ showNat k @ '').'' @ e \<in> set usedNames}
          \<subseteq> {k. counter \<le> k \<and> baseName @ ''('' @ showNat k @ '').'' @ e \<in> set usedNames}"
      by auto
    have "counter \<in> {k. counter \<le> k \<and> baseName @ ''('' @ showNat k @ '').'' @ e \<in> set usedNames}"
      using n u by simp
    moreover have "counter \<notin> {k. counter + 1 \<le> k \<and> baseName @ ''('' @ showNat k @ '').'' @ e \<in> set usedNames}"
      by simp
    ultimately show "{k. counter + 1 \<le> k \<and> baseName @ ''('' @ showNat k @ '').'' @ e \<in> set usedNames}
          \<noteq> {k. counter \<le> k \<and> baseName @ ''('' @ showNat k @ '').'' @ e \<in> set usedNames}"
      by blast
  qed
  then have "card {k. counter + 1 \<le> k \<and> baseName @ ''('' @ showNat k @ '').'' @ e \<in> set usedNames}
          < card {k. counter \<le> k \<and> baseName @ ''('' @ showNat k @ '').'' @ e \<in> set usedNames}"
    by (intro psubset_card_mono finite_candidates)
  then show "((baseName, e, usedNames, counter + 1), baseName, e, usedNames, counter)
       \<in> measure (\<lambda>(b, e, U, c). card {k. c \<le> k \<and> b @ ''('' @ showNat k @ '').'' @ e \<in> set U})"
    by simp
qed

declare getUniqueFilename_loop.simps [simp del]

section \<open>Facts about splitting and about the loop of getUniqueFilename\<close>

lemma join_Cons_Cons: "join sep ((c # p) # ps) = c # join sep (p # ps)"
  by (cases ps) simp_all

lemma join_split: "join sep (split sep s) = s"
proof (induction s)
  case Nil show ?case by simp
next
  case (Cons c cs)
  then show ?case
    by (cases "split sep cs") (auto simp: split_not_Nil join_Cons_Cons)
qed

lemma split_no_sep: "sep \<notin> set s \<Longrightarrow> split sep s = [s]"
  by (induction s) auto

lemma split_snoc: "sep \<notin> set e \<Longrightarrow> split sep (stem @ sep # e) = split sep stem @ [e]"
proof (induction stem)
  case Nil then show ?case by (simp add: split_no_sep)
next
  case (Cons c cs)
  then show ?case by (cases "split sep cs") (auto simp: split_not_Nil)
qed

lemma getUniqueFilename_loop_result:
  "\<exists>n\<ge>c. getUniqueFilename_loop b e U c = b @ ''('' @ showNat n @ '').'' @ e
        \<and> b @ ''('' @ showNat n @ '').'' @ e \<notin> set U
        \<and> (\<forall>k. c \<le> k \<and> k < n \<longrightarrow> b @ ''('' @ showNat k @ '').'' @ e \<in> set U)"
proof (induction b e U c rule: getUniqueFilename_loop.induct)
  case (1 b e U c)
  show ?case
  proof (cases "b @ ''('' @ showNat c @ '').'' @ e \<in> set U")
    case False
    then have "getUniqueFilename_loop b e U c = b @ ''('' @ showNat c @ '').'' @ e"
      by (subst getUniqueFilename_loop.simps) simp
    with False show ?thesis by (intro exI[of _ c]) auto
  next
    case True
    from "1.IH"[OF refl True] obtain n where n: "c + 1 \<le> n"
      "getUniqueFilename_loop b e U (c + 1) = b @ ''('' @ showNat n @ '').'' @ e"
      "b @ ''('' @ showNat n @ '').'' @ e \<notin> set U"
      "\<forall>k. c + 1 \<le> k \<and> k < n \<longrightarrow> b @ ''('' @ showNat k @ '').'' @ e \<in> set U"
      by blast
    from True have "getUniqueFilename_loop b e U c = getUniqueFilename_loop b e U (c + 1)"
      by (subst getUniqueFilename_loop.simps) simp
    moreover have "\<forall>k. c \<le> k \<and> k < n \<longrightarrow> b @ ''('' @ showNat k @ '').'' @ e \<in> set U"
    proof (intro allI impI)
      fix k assume "c \<le> k \<and> k < n"
      then consider "k = c" | "c + 1 \<le> k \<and> k < n" by linarith
      then show "b @ ''('' @ showNat k @ '').'' @ e \<in> set U"
        using True n(4) by cases auto
    qed
    ultimately show ?thesis using n by (intro exI[of _ n]) auto
  qed
qed

text \<open>The counter the loop stops at is at most the number of used names past the one it
  starts from.\<close>

lemma getUniqueFilename_loop_bound:
  "\<exists>n. c \<le> n \<and> n \<le> c + length U
       \<and> getUniqueFilename_loop b e U c = b @ ''('' @ showNat n @ '').'' @ e"
proof -
  from getUniqueFilename_loop_result[of c b e U] obtain n where n: "c \<le> n"
    "getUniqueFilename_loop b e U c = b @ ''('' @ showNat n @ '').'' @ e"
    "\<forall>k. c \<le> k \<and> k < n \<longrightarrow> b @ ''('' @ showNat k @ '').'' @ e \<in> set U"
    by blast
  have inj: "inj_on (\<lambda>k. b @ ''('' @ showNat k @ '').'' @ e) {c..<n}"
    by (rule inj_onI) (simp add: showNat_inj)
  have sub: "(\<lambda>k. b @ ''('' @ showNat k @ '').'' @ e) ` {c..<n} \<subseteq> set U"
    using n(3) by auto
  have "card {c..<n} \<le> card (set U)"
    by (rule card_inj_on_le[OF inj sub]) simp
  also have "\<dots> \<le> length U" by (rule card_length)
  finally have "n \<le> c + length U" by simp
  with n(1,2) show ?thesis by blast
qed

lemma getUniqueFilename_fresh: "getUniqueFilename f U \<notin> set U"
proof (cases "f \<in> set U")
  case False
  then show ?thesis by (simp add: getUniqueFilename_def)
next
  case True
  define b where "b = (if join (CHR ''.'') (butlast (split (CHR ''.'') f)) = [] then ''file''
                       else join (CHR ''.'') (butlast (split (CHR ''.'') f)))"
  from True have "getUniqueFilename f U = getUniqueFilename_loop b (last (split (CHR ''.'') f)) U 1"
    by (simp add: getUniqueFilename_def Let_def b_def)
  moreover from getUniqueFilename_loop_result[of 1 b "last (split (CHR ''.'') f)" U]
  have "getUniqueFilename_loop b (last (split (CHR ''.'') f)) U 1 \<notin> set U"
    by metis
  ultimately show ?thesis by simp
qed

section \<open>Packing: the names given to the archive\<close>

lemma set_setAdd: "set (setAdd x S) = insert x (set S)"
  by (auto simp: setAdd_def)

lemma setAdd_fresh: "x \<notin> set S \<Longrightarrow> setAdd x S = S @ [x]"
  by (simp add: setAdd_def)

lemma take_Suc_snoc: "take (Suc (length Z)) xs = Z @ [x] \<Longrightarrow> take (length Z) xs = Z"
proof -
  assume a: "take (Suc (length Z)) xs = Z @ [x]"
  have "take (length Z) xs = take (length Z) (take (Suc (length Z)) xs)" by simp
  also have "\<dots> = Z" by (simp only: a) simp
  finally show ?thesis .
qed

lemma packFiles_invariant:
  "packFiles br U Z rs = Some (U', Z') \<Longrightarrow> U = map fst Z \<Longrightarrow> distinct U \<Longrightarrow>
     U' = map fst Z' \<and> distinct U' \<and> length Z' = length Z + length rs \<and> take (length Z) Z' = Z
     \<and> (\<forall>i<length rs. fst (Z' ! (length Z + i))
            = getUniqueFilename (filename (rs ! i)) (map fst (take (length Z + i) Z')))"
proof (induction rs arbitrary: U Z)
  case Nil
  then show ?case by auto
next
  case (Cons r rs)
  from Cons.prems(1) obtain buf where buf: "readAsArrayBuffer br (result_blob r) = Some buf"
    by (auto split: option.splits)
  define u where "u = getUniqueFilename (filename r) U"
  have fresh: "u \<notin> set U" unfolding u_def by (rule getUniqueFilename_fresh)
  from Cons.prems(1) buf have rec: "packFiles br (U @ [u]) (Z @ [(u, buf)]) rs = Some (U', Z')"
    by (simp add: Let_def u_def[symmetric] setAdd_fresh[OF fresh])
  have m: "U @ [u] = map fst (Z @ [(u, buf)])" using Cons.prems(2) by simp
  have d: "distinct (U @ [u])" using Cons.prems(3) fresh by simp
  note IH = Cons.IH[OF rec m d]
  from IH have len: "length Z' = length Z + length (r # rs)" by simp
  from IH have tk: "take (Suc (length Z)) Z' = Z @ [(u, buf)]" by simp
  then have tk0: "take (length Z) Z' = Z" by (rule take_Suc_snoc)
  have at0: "Z' ! length Z = (u, buf)"
    by (metis tk len length_Cons less_add_Suc1 nth_append_length nth_take lessI)
  have steps: "\<forall>i<length (r # rs). fst (Z' ! (length Z + i))
            = getUniqueFilename (filename ((r # rs) ! i)) (map fst (take (length Z + i) Z'))"
  proof (intro allI impI)
    fix i assume i: "i < length (r # rs)"
    show "fst (Z' ! (length Z + i))
            = getUniqueFilename (filename ((r # rs) ! i)) (map fst (take (length Z + i) Z'))"
    proof (cases i)
      case 0
      then show ?thesis using at0 tk0 Cons.prems(2) by (simp add: u_def)
    next
      case (Suc j)
      with i have "j < length rs" by simp
      with IH have "fst (Z' ! (length (Z @ [(u, buf)]) + j))
            = getUniqueFilename (filename (rs ! j)) (map fst (take (length (Z @ [(u, buf)]) + j) Z'))"
        by blast
      then show ?thesis using Suc by simp
    qed
  qed
  from IH len tk0 steps show ?case by blast
qed

lemma packFiles_total:
  "(\<forall>r\<in>set rs. readAsArrayBuffer br (result_blob r) \<noteq> None) \<Longrightarrow> packFiles br U Z rs \<noteq> None"
  by (induction rs arbitrary: U Z) (auto simp: Let_def)

lemma getUniqueFilename_unused: "fname \<notin> set usedNames \<Longrightarrow> getUniqueFilename fname usedNames = fname"
  by (simp add: getUniqueFilename_def)

lemma getUniqueFilename_collision:
  assumes "fname \<in> set usedNames" and "fname = stem @ ''.'' @ e" and "CHR ''.'' \<notin> set e"
  shows "\<exists>n\<ge>1. getUniqueFilename fname usedNames
             = (if stem = [] then ''file'' else stem) @ ''('' @ showNat n @ '').'' @ e
        \<and> (if stem = [] then ''file'' else stem) @ ''('' @ showNat n @ '').'' @ e \<notin> set usedNames
        \<and> (\<forall>k. 1 \<le> k \<and> k < n \<longrightarrow>
              (if stem = [] then ''file'' else stem) @ ''('' @ showNat k @ '').'' @ e \<in> set usedNames)"
proof -
  have sp: "split (CHR ''.'') fname = split (CHR ''.'') stem @ [e]"
    using assms(2,3) by (simp add: split_snoc)
  have "getUniqueFilename fname usedNames
          = getUniqueFilename_loop (if stem = [] then ''file'' else stem) e usedNames 1"
    using assms(1) by (simp add: getUniqueFilename_def Let_def sp join_split)
  then show ?thesis
    using getUniqueFilename_loop_result[of 1 "if stem = [] then ''file'' else stem" e usedNames]
    by simp
qed

lemma downloadAll_names:
  assumes "downloadAllBtnClick br s = Download dn z"
  shows "dn = ''converted_images.zip'' \<and> length z = length (convertedResults s)
         \<and> distinct (map fst z)
         \<and> (\<forall>i<length z. fst (z ! i)
               = getUniqueFilename (filename (convertedResults s ! i)) (map fst (take i z)))"
proof -
  from assms obtain U where p: "packFiles br [] [] (convertedResults s) = Some (U, z)"
    and dn: "dn = ''converted_images.zip''"
    by (auto simp: downloadAllBtnClick_def split: if_splits option.splits)
  from packFiles_invariant[OF p] dn show ?thesis by auto
qed

lemma downloadAll_two:
  assumes "readAsArrayBuffer br b1 = Some d1" and "readAsArrayBuffer br b2 = Some d2"
  shows "downloadAllBtnClick br
           (s\<lparr>convertedResults := [\<lparr>result_blob = b1, filename = ''a.png''\<rparr>,
                                    \<lparr>result_blob = b2, filename = ''a.png''\<rparr>]\<rparr>)
         = Download ''converted_images.zip'' [(''a.png'', d1), (''a(1).png'', d2)]"
  using assms
  by (simp add: downloadAllBtnClick_def getUniqueFilename_def setAdd_def
      getUniqueFilename_loop.simps showNat.simps digit_def Let_def)

lemma downloadAll_three:
  assumes "readAsArrayBuffer br b1 = Some d1" and "readAsArrayBuffer br b2 = Some d2"
    and "readAsArrayBuffer br b3 = Some d3"
  shows "downloadAllBtnClick br
           (s\<lparr>convertedResults := [\<lparr>result_blob = b1, filename = ''b.png''\<rparr>,
                                    \<lparr>result_blob = b2, filename = ''b.png''\<rparr>,
                                    \<lparr>result_blob = b3, filename = ''b.png''\<rparr>]\<rparr>)
         = Download ''converted_images.zip'' [(''b.png'', d1), (''b(1).png'', d2), (''b(2).png'', d3)]"
  using assms
  by (simp add: downloadAllBtnClick_def getUniqueFilename_def setAdd_def
      getUniqueFilename_loop.simps showNat.simps digit_def Let_def)

text \<open>
  C4. In a pack operation the entry names are assigned in the order of the results, each
  being \<open>getUniqueFilename\<close> of the result's name and of the names given so far. A
  name not yet used is kept verbatim. A used name \<open>stem.e\<close> becomes \<open>stem(n).e\<close>, where
  \<open>n\<close> is the first counter from 1 on whose name is unused. Two results named \<open>a.png\<close>
  give \<open>a.png\<close> and \<open>a(1).png\<close>; three named \<open>b.png\<close> give \<open>b.png\<close>, \<open>b(1).png\<close> and
  \<open>b(2).png\<close>.
\<close>
theorem pack_collision_naming:
  "(downloadAllBtnClick br s = Download dn z \<longrightarrow>
      length z = length (convertedResults s)
      \<and> (\<forall>i<length z. fst (z ! i)
             = getUniqueFilename (filename (convertedResults s ! i)) (map fst (take i z))))
   \<and> (fname \<notin> set usedNames \<longrightarrow> getUniqueFilename fname usedNames = fname)
   \<and> (stem @ ''.'' @ e \<in> set usedNames' \<and> stem \<noteq> [] \<and> CHR ''.'' \<notin> set e \<longrightarrow>
        (\<exists>n\<ge>1. getUniqueFilename (stem @ ''.'' @ e) usedNames' = stem @ ''('' @ showNat n @ '').'' @ e
           \<and> stem @ ''('' @ showNat n @ '').'' @ e \<notin> set usedNames'
           \<and> (\<forall>k. 1 \<le> k \<and> k < n \<longrightarrow> stem @ ''('' @ showNat k @ '').'' @ e \<in> set usedNames')))
   \<and> (readAsArrayBuffer br b1 = Some d1 \<and> readAsArrayBuffer br b2 = Some d2
        \<and> readAsArrayBuffer br b3 = Some d3 \<longrightarrow>
        downloadAllBtnClick br
           (s\<lparr>convertedResults := [\<lparr>result_blob = b1, filename = ''a.png''\<rparr>,
                                    \<lparr>result_blob = b2, filename = ''a.png''\<rparr>]\<rparr>)
          = Download ''converted_images.zip'' [(''a.png'', d1), (''a(1).png'', d2)]
        \<and> downloadAllBtnClick br
           (s\<lparr>convertedResults := [\<lparr>result_blob = b1, filename = ''b.png''\<rparr>,
                                    \<lparr>result_blob = b2, filename = ''b.png''\<rparr>,
                                    \<lparr>result_blob = b3, filename = ''b.png''\<rparr>]\<rparr>)
          = Download ''converted_images.zip''
              [(''b.png'', d1), (''b(1).png'', d2), (''b(2).png'', d3)])"
proof (intro conjI impI)
  assume "downloadAllBtnClick br s = Download dn z"
  from downloadAll_names[OF this]
  show "length z = length (convertedResults s)"
    and "\<forall>i<length z. fst (z ! i)
             = getUniqueFilename (filename (convertedResults s ! i)) (map fst (take i z))"
    by blast+
next
  assume "fname \<notin> set usedNames"
  then show "getUniqueFilename fname usedNames = fname" by (rule getUniqueFilename_unused)
next
  assume a: "stem @ ''.'' @ e \<in> set usedNames' \<and> stem \<noteq> [] \<and> CHR ''.'' \<notin> set e"
  then have "stem \<noteq> []" by simp
  with getUniqueFilename_collision[of "stem @ ''.'' @ e" usedNames' stem e] a
  show "\<exists>n\<ge>1. getUniqueFilename (stem @ ''.'' @ e) usedNames' = stem @ ''('' @ showNat n @ '').'' @ e
           \<and> stem @ ''('' @ showNat n @ '').'' @ e \<notin> set usedNames'
           \<and> (\<forall>k. 1 \<le> k \<and> k < n \<longrightarrow> stem @ ''('' @ showNat k @ '').'' @ e \<in> set usedNames')"
    by simp
next
  assume r: "readAsArrayBuffer br b1 = Some d1 \<and> readAsArrayBuffer br b2 = Some d2
        \<and> readAsArrayBuffer br b3 = Some d3"
  then show "downloadAllBtnClick br
           (s\<lparr>convertedResults := [\<lparr>result_blob = b1, filename = ''a.png''\<rparr>,
                                    \<lparr>result_blob = b2, filename = ''a.png''\<rparr>]\<rparr>)
          = Download ''converted_images.zip'' [(''a.png'', d1), (''a(1).png'', d2)]"
    by (intro downloadAll_two) simp_all
  from r show "downloadAllBtnClick br
           (s\<lparr>convertedResults := [\<lparr>result_blob = b1, filename = ''b.png''\<rparr>,
                                    \<lparr>result_blob = b2, filename = ''b.png''\<rparr>,
                                    \<lparr>result_blob = b3, filename = ''b.png''\<rparr>]\<rparr>)
          = Download ''converted_images.zip''
              [(''b.png'', d1), (''b(1).png'', d2), (''b(2).png'', d3)]"
    by (intro downloadAll_three) simp_all
qed

theorem pack_collision_naming_witness:
  "getUniqueFilename ''c.png'' [''a.png'', ''a(1).png''] = ''c.png''
   \<and> (\<exists>n\<ge>1. getUniqueFilename ''a.png'' [''a.png'', ''a(1).png''] = ''a('' @ showNat n @ '').png''
          \<and> ''a('' @ showNat n @ '').png'' \<notin> set [''a.png'', ''a(1).png'']
          \<and> (\<forall>k. 1 \<le> k \<and> k < n \<longrightarrow> ''a('' @ showNat k @ '').png'' \<in> set [''a.png'', ''a(1).png'']))
   \<and> downloadAllBtnClick exampleBrowser
        (examplePage\<lparr>convertedResults :=
           [\<lparr>result_blob = \<lparr>blob_bytes = [1], blob_type = ''image/png''\<rparr>, filename = ''a.png''\<rparr>,
            \<lparr>result_blob = \<lparr>blob_bytes = [2], blob_type = ''image/png''\<rparr>, filename = ''a.png''\<rparr>]\<rparr>)
       = Download ''converted_images.zip'' [(''a.png'', [1]), (''a(1).png'', [2])]
   \<and> downloadAllBtnClick exampleBrowser
        (examplePage\<lparr>convertedResults :=
           [\<lparr>result_blob = \<lparr>blob_bytes = [1], blob_type = ''image/png''\<rparr>, filename = ''b.png''\<rparr>,
            \<lparr>result_blob = \<lparr>blob_bytes = [2], blob_type = ''image/png''\<rparr>, filename = ''b.png''\<rparr>,
            \<lparr>result_blob = \<lparr>blob_bytes = [3], blob_type = ''image/png''\<rparr>, filename = ''b.png''\<rparr>]\<rparr>)
       = Download ''converted_images.zip'' [(''b.png'', [1]), (''b(1).png'', [2]), (''b(2).png'', [3])]"
  using pack_collision_naming[where br = exampleBrowser
      and s = "examplePage\<lparr>convertedResults :=
           [\<lparr>result_blob = \<lparr>blob_bytes = [1], blob_type = ''image/png''\<rparr>, filename = ''a.png''\<rparr>,
            \<lparr>result_blob = \<lparr>blob_bytes = [2], blob_type = ''image/png''\<rparr>, filename = ''a.png''\<rparr>]\<rparr>"
      and dn = "''converted_images.zip''" and z = "[(''a.png'', [1]), (''a(1).png'', [2])]"
      and fname = "''c.png''" and usedNames = "[''a.png'', ''a(1).png'']"
      and stem = "''a''" and e = "''png''" and usedNames' = "[''a.png'', ''a(1).png'']"
      and ?b1.0 = "\<lparr>blob_bytes = [1], blob_type = ''image/png''\<rparr>" and ?d1.0 = "[1]"
      and ?b2.0 = "\<lparr>blob_bytes = [2], blob_type = ''image/png''\<rparr>" and ?d2.0 = "[2]"
      and ?b3.0 = "\<lparr>blob_bytes = [3], blob_type = ''image/png''\<rparr>" and ?d3.0 = "[3]"]
  by (simp add: exampleBrowser_def downloadAll_two)

lemma downloadAll_total:
  assumes "convertedResults s \<noteq> []"
    and "\<forall>r\<in>set (convertedResults s). readAsArrayBuffer br (result_blob r) \<noteq> None"
  shows "\<exists>z. downloadAllBtnClick br s = Download ''converted_images.zip'' z"
proof -
  from packFiles_total[OF assms(2)] obtain U z
    where "packFiles br [] [] (convertedResults s) = Some (U, z)" by fastforce
  with assms(1) show ?thesis by (simp add: downloadAllBtnClick_def)
qed

text \<open>
  C10. Within one pack operation the names written to the archive are pairwise distinct,
  whatever the names of the results: the name \<open>getUniqueFilename\<close> returns is never in
  the set of used names, and it is in that set from then on. When every result can be
  read, the archive is produced, with one entry per result.
\<close>
theorem pack_names_distinct:
  "getUniqueFilename fname usedNames \<notin> set usedNames
   \<and> set (setAdd (getUniqueFilename fname usedNames) usedNames)
        = insert (getUniqueFilename fname usedNames) (set usedNames)
   \<and> (downloadAllBtnClick br s = Download dn z \<longrightarrow>
        distinct (map fst z) \<and> length z = length (convertedResults s))
   \<and> (convertedResults s \<noteq> []
        \<and> (\<forall>r\<in>set (convertedResults s). readAsArrayBuffer br (result_blob r) \<noteq> None) \<longrightarrow>
        (\<exists>z'. downloadAllBtnClick br s = Download ''converted_images.zip'' z'
              \<and> distinct (map fst z') \<and> length z' = length (convertedResults s)))"
proof (intro conjI impI)
  show "getUniqueFilename fname usedNames \<notin> set usedNames" by (rule getUniqueFilename_fresh)
  show "set (setAdd (getUniqueFilename fname usedNames) usedNames)
        = insert (getUniqueFilename fname usedNames) (set usedNames)" by (rule set_setAdd)
next
  assume "downloadAllBtnClick br s = Download dn z"
  from downloadAll_names[OF this]
  show "distinct (map fst z)" and "length z = length (convertedResults s)" by blast+
next
  assume a: "convertedResults s \<noteq> []
        \<and> (\<forall>r\<in>set (convertedResults s). readAsArrayBuffer br (result_blob r) \<noteq> None)"
  then obtain z' where z': "downloadAllBtnClick br s = Download ''converted_images.zip'' z'"
    using downloadAll_total[of s br] by blast
  from downloadAll_names[OF z'] z'
  show "\<exists>z'. downloadAllBtnClick br s = Download ''converted_images.zip'' z'
              \<and> distinct (map fst z') \<and> length z' = length (convertedResults s)"
    by blast
qed

theorem pack_names_distinct_witness:
  "getUniqueFilename ''b.png'' [''b.png'', ''b(1).png''] \<notin> set [''b.png'', ''b(1).png'']
   \<and> distinct (map fst [(''b.png'', [1::nat]), (''b(1).png'', [2]), (''b(2).png'', [3])])
   \<and> (\<exists>z'. downloadAllBtnClick exampleBrowser
        (examplePage\<lparr>convertedResults :=
           [\<lparr>result_blob = \<lparr>blob_bytes = [1], blob_type = ''image/png''\<rparr>, filename = ''b.png''\<rparr>,
            \<lparr>result_blob = \<lparr>blob_bytes = [2], blob_type = ''image/png''\<rparr>, filename = ''b.png''\<rparr>,
            \<lparr>result_blob = \<lparr>blob_bytes = [3], blob_type = ''image/png''\<rparr>, filename = ''b.png''\<rparr>]\<rparr>)
         = Download ''converted_images.zip'' z' \<and> distinct (map fst z') \<and> length z' = 3)"
  using pack_names_distinct[where br = exampleBrowser
      and s = "examplePage\<lparr>convertedResults :=
           [\<lparr>result_blob = \<lparr>blob_bytes = [1], blob_type = ''image/png''\<rparr>, filename = ''b.png''\<rparr>,
            \<lparr>result_blob = \<lparr>blob_bytes = [2], blob_type = ''image/png''\<rparr>, filename = ''b.png''\<rparr>,
            \<lparr>result_blob = \<lparr>blob_bytes = [3], blob_type = ''image/png''\<rparr>, filename = ''b.png''\<rparr>]\<rparr>"
      and dn = "''converted_images.zip''"
      and z = "[(''b.png'', [1]), (''b(1).png'', [2]), (''b(2).png'', [3])]"
      and fname = "''b.png''" and usedNames = "[''b.png'', ''b(1).png'']"]
  by (simp add: exampleBrowser_def downloadAll_three)

section \<open>Extensions\<close>

lemma join_snoc: "xs \<noteq> [] \<Longrightarrow> join sep (xs @ [y]) = join sep xs @ sep # y"
  by (induction sep xs rule: join.induct) simp_all

lemma dot_decompose:
  "CHR ''.'' \<in> set nm \<Longrightarrow> \<exists>stem x. nm = stem @ CHR ''.'' # x \<and> CHR ''.'' \<notin> set x"
  using split_list_last[of "CHR ''.''" nm] by auto

lemma changeExtension_dotless:
  "CHR ''.'' \<notin> set nm \<Longrightarrow> changeExtension nm newExt = nm @ ''.'' @ newExt"
  by (simp add: changeExtension_def split_no_sep)

lemma changeExtension_dotted:
  assumes "CHR ''.'' \<notin> set x"
  shows "changeExtension (stem @ CHR ''.'' # x) newExt = stem @ CHR ''.'' # newExt"
proof -
  have sp: "split (CHR ''.'') (stem @ CHR ''.'' # x) = split (CHR ''.'') stem @ [x]"
    using assms by (simp add: split_snoc)
  have ne: "split (CHR ''.'') stem \<noteq> []" by (rule split_not_Nil)
  then have len: "\<not> length (split (CHR ''.'') stem @ [x]) \<le> 1"
    by (cases "split (CHR ''.'') stem") simp_all
  have "changeExtension (stem @ CHR ''.'' # x) newExt
          = join (CHR ''.'') ((split (CHR ''.'') stem @ [x])[length (split (CHR ''.'') stem) := newExt])"
    using len by (simp add: changeExtension_def sp del: append.simps)
  also have "\<dots> = join (CHR ''.'') (split (CHR ''.'') stem @ [newExt])" by simp
  also have "\<dots> = join (CHR ''.'') (split (CHR ''.'') stem) @ CHR ''.'' # newExt"
    using ne by (simp add: join_snoc)
  finally show ?thesis by (simp add: join_split)
qed


lemma getExtension_dotless: "CHR ''.'' \<notin> set nm \<Longrightarrow> getExtension nm = []"
  by (simp add: getExtension_def split_no_sep)

lemma getExtension_dotted:
  assumes "CHR ''.'' \<notin> set x"
  shows "getExtension (stem @ CHR ''.'' # x) = x"
proof -
  have sp: "split (CHR ''.'') (stem @ CHR ''.'' # x) = split (CHR ''.'') stem @ [x]"
    using assms by (simp add: split_snoc)
  have ne: "split (CHR ''.'') stem \<noteq> []" by (rule split_not_Nil)
  then have len: "\<not> length (split (CHR ''.'') stem @ [x]) \<le> 1"
    by (cases "split (CHR ''.'') stem") simp_all
  then show ?thesis by (simp add: getExtension_def sp del: append.simps)
qed

lemma afterLastDot_dotted: "CHR ''.'' \<notin> set x \<Longrightarrow> afterLastDot (stem @ CHR ''.'' # x) = x"
proof -
  assume a: "CHR ''.'' \<notin> set x"
  have "takeWhile (\<lambda>c. c \<noteq> CHR ''.'') (rev x @ CHR ''.'' # rev stem)
          = takeWhile (\<lambda>c. c \<noteq> CHR ''.'') (rev x)"
    by (rule takeWhile_tail) simp
  also have "\<dots> = rev x" using a by (auto simp: takeWhile_eq_all_conv)
  finally show ?thesis by (simp add: afterLastDot_def)
qed

lemma getExtension_afterLastDot: "getExtension nm = afterLastDot nm"
proof (cases "CHR ''.'' \<in> set nm")
  case False
  then show ?thesis by (simp add: getExtension_dotless afterLastDot_def)
next
  case True
  from dot_decompose[OF this] obtain stem x where "nm = stem @ CHR ''.'' # x" "CHR ''.'' \<notin> set x"
    by blast
  then show ?thesis by (simp add: getExtension_dotted afterLastDot_dotted)
qed

section \<open>Converting: what a run records\<close>

text \<open>\<open>convertImageFile\<close> is not told the format of its input: a blob that decodes is drawn
  on a canvas of the decoded image's width and height and handed to the encoder.\<close>

lemma convertImageFile_decoded:
  "readAsDataURL br fileBlob = Some url \<Longrightarrow> loadImage br url = Some img \<Longrightarrow>
     convertImageFile br fileBlob outputMime
       = toBlob br \<lparr>canvas_width = img_width img, canvas_height = img_height img,
                      canvas_drawn = [img]\<rparr> outputMime"
  by (simp add: convertImageFile_def drawImage_def)

lemma convertFiles_result:
  "convertFiles br (mime_of info) (ext_of info) s items
     = s\<lparr>outputContainer := outputContainer s @ map (nodeOf br info) items,
          convertedResults := convertedResults s @ List.map_filter (resultOf br info) items\<rparr>"
proof (induction items arbitrary: s)
  case Nil
  show ?case by (simp add: List.map_filter_simps)
next
  case (Cons it items)
  show ?case
  proof (cases "convertImageFile br (blob it) (mime_of info)")
    case None
    then show ?thesis
      by (simp add: Cons.IH List.map_filter_simps resultOf_def nodeOf_def appendErrorResult_def)
  next
    case (Some rb)
    then show ?thesis
      by (simp add: Cons.IH List.map_filter_simps resultOf_def nodeOf_def appendResult_def Let_def)
  qed
qed

lemma shownErrors_nodes:
  "shownErrors (map (nodeOf br info) items)
     = map (\<lambda>it. ConversionFailed (originalName it)) [it \<leftarrow> items. resultOf br info it = None]"
  by (induction items) (auto simp: nodeOf_def split: option.splits)

lemma length_results_errors:
  "length (List.map_filter (resultOf br info) items)
     + length (shownErrors (map (nodeOf br info) items)) = length items"
  by (induction items) (auto simp: nodeOf_def List.map_filter_simps split: option.splits)

lemma convertBtnClick_result:
  assumes "map_of imageMimeMap (toFormat s) = Some info" and "originalFiles s \<noteq> []"
  shows "\<exists>s'. convertBtnClick br s = Inr s'
           \<and> outputContainer s' = map (nodeOf br info) (originalFiles s)
           \<and> convertedResults s' = List.map_filter (resultOf br info) (originalFiles s)
           \<and> originalFiles s' = originalFiles s \<and> errorResults s' = errorResults s"
  using assms by (simp add: convertBtnClick_def convertFiles_result Let_def)

text \<open>
  C1. A conversion run goes through the whole work list. Each item leaves one block in
  the output container, in the order of the items: the converted image, or, when
  \<open>convertImageFile\<close> gave \<open>null\<close>, a message with the item's original name; an item
  that fails does not stop the items after it. Three items of which the second does not
  decode give two results, those of the first and the third in that order, and one
  message, naming the second.
\<close>
theorem conversion_processes_every_item:
  "(map_of imageMimeMap (toFormat s) = Some info \<and> originalFiles s \<noteq> [] \<longrightarrow>
      (\<exists>s'. convertBtnClick br s = Inr s'
         \<and> outputContainer s' = map (nodeOf br info) (originalFiles s)
         \<and> convertedResults s' = List.map_filter (resultOf br info) (originalFiles s)
         \<and> shownErrors (outputContainer s')
              = map (\<lambda>it. ConversionFailed (originalName it))
                  [it \<leftarrow> originalFiles s. convertImageFile br (blob it) (mime_of info) = None]
         \<and> length (convertedResults s') + length (shownErrors (outputContainer s'))
              = length (originalFiles s)))
   \<and> (map_of imageMimeMap (toFormat t) = Some info' \<and> originalFiles t = [i1, i2, i3]
        \<and> convertImageFile br (blob i1) (mime_of info') = Some r1
        \<and> readAsDataURL br (blob i2) = Some u \<and> loadImage br u = None
        \<and> convertImageFile br (blob i3) (mime_of info') = Some r3 \<longrightarrow>
      (\<exists>t'. convertBtnClick br t = Inr t'
         \<and> convertedResults t'
              = [\<lparr>result_blob = r1, filename = changeExtension (originalName i1) (ext_of info')\<rparr>,
                 \<lparr>result_blob = r3, filename = changeExtension (originalName i3) (ext_of info')\<rparr>]
         \<and> shownErrors (outputContainer t') = [ConversionFailed (originalName i2)]))"
proof (intro conjI impI)
  assume a: "map_of imageMimeMap (toFormat s) = Some info \<and> originalFiles s \<noteq> []"
  then obtain s' where s': "convertBtnClick br s = Inr s'"
    "outputContainer s' = map (nodeOf br info) (originalFiles s)"
    "convertedResults s' = List.map_filter (resultOf br info) (originalFiles s)"
    using convertBtnClick_result[of s info br] by blast
  have none: "\<And>it. (resultOf br info it = None)
                 = (convertImageFile br (blob it) (mime_of info) = None)"
    by (simp add: resultOf_def split: option.splits)
  have "shownErrors (outputContainer s')
          = map (\<lambda>it. ConversionFailed (originalName it))
              [it \<leftarrow> originalFiles s. convertImageFile br (blob it) (mime_of info) = None]"
    by (simp add: s'(2) shownErrors_nodes none)
  moreover have "length (convertedResults s') + length (shownErrors (outputContainer s'))
          = length (originalFiles s)"
    by (simp only: s'(2,3) length_results_errors)
  ultimately show "\<exists>s'. convertBtnClick br s = Inr s'
         \<and> outputContainer s' = map (nodeOf br info) (originalFiles s)
         \<and> convertedResults s' = List.map_filter (resultOf br info) (originalFiles s)
         \<and> shownErrors (outputContainer s')
              = map (\<lambda>it. ConversionFailed (originalName it))
                  [it \<leftarrow> originalFiles s. convertImageFile br (blob it) (mime_of info) = None]
         \<and> length (convertedResults s') + length (shownErrors (outputContainer s'))
              = length (originalFiles s)"
    using s' by blast
next
  assume b: "map_of imageMimeMap (toFormat t) = Some info' \<and> originalFiles t = [i1, i2, i3]
        \<and> convertImageFile br (blob i1) (mime_of info') = Some r1
        \<and> readAsDataURL br (blob i2) = Some u \<and> loadImage br u = None
        \<and> convertImageFile br (blob i3) (mime_of info') = Some r3"
  then have c2: "convertImageFile br (blob i2) (mime_of info') = None"
    by (simp add: convertImageFile_def)
  from b obtain t' where t': "convertBtnClick br t = Inr t'"
    "outputContainer t' = map (nodeOf br info') (originalFiles t)"
    "convertedResults t' = List.map_filter (resultOf br info') (originalFiles t)"
    using convertBtnClick_result[of t info' br] by auto
  from b c2 have "convertedResults t'
              = [\<lparr>result_blob = r1, filename = changeExtension (originalName i1) (ext_of info')\<rparr>,
                 \<lparr>result_blob = r3, filename = changeExtension (originalName i3) (ext_of info')\<rparr>]"
    by (simp add: t'(3) List.map_filter_simps resultOf_def)
  moreover from b c2 have "shownErrors (outputContainer t') = [ConversionFailed (originalName i2)]"
    by (simp add: t'(2) nodeOf_def resultOf_def)
  ultimately show "\<exists>t'. convertBtnClick br t = Inr t'
         \<and> convertedResults t'
              = [\<lparr>result_blob = r1, filename = changeExtension (originalName i1) (ext_of info')\<rparr>,
                 \<lparr>result_blob = r3, filename = changeExtension (originalName i3) (ext_of info')\<rparr>]
         \<and> shownErrors (outputContainer t') = [ConversionFailed (originalName i2)]"
    using t'(1) by blast
qed

theorem conversion_processes_every_item_witness:
  "\<exists>t'. convertBtnClick exampleBrowser
      (examplePage\<lparr>originalFiles :=
        [\<lparr>blob = \<lparr>blob_bytes = [1], blob_type = ''image/png''\<rparr>, originalName = ''a.png'', format = ''png''\<rparr>,
         \<lparr>blob = \<lparr>blob_bytes = [], blob_type = ''image/png''\<rparr>, originalName = ''b.png'', format = ''png''\<rparr>,
         \<lparr>blob = \<lparr>blob_bytes = [3], blob_type = ''image/webp''\<rparr>, originalName = ''c.webp'', format = ''webp''\<rparr>]\<rparr>)
      = Inr t'
    \<and> convertedResults t'
         = [\<lparr>result_blob = \<lparr>blob_bytes = [2, 1], blob_type = ''image/jpeg''\<rparr>, filename = ''a.jpg''\<rparr>,
            \<lparr>result_blob = \<lparr>blob_bytes = [2, 1], blob_type = ''image/jpeg''\<rparr>, filename = ''c.jpg''\<rparr>]
    \<and> shownErrors (outputContainer t') = [ConversionFailed ''b.png'']
    \<and> length (convertedResults t') + length (shownErrors (outputContainer t')) = 3"
proof -
  let ?s = "examplePage\<lparr>originalFiles :=
        [\<lparr>blob = \<lparr>blob_bytes = [1], blob_type = ''image/png''\<rparr>, originalName = ''a.png'', format = ''png''\<rparr>,
         \<lparr>blob = \<lparr>blob_bytes = [], blob_type = ''image/png''\<rparr>, originalName = ''b.png'', format = ''png''\<rparr>,
         \<lparr>blob = \<lparr>blob_bytes = [3], blob_type = ''image/webp''\<rparr>, originalName = ''c.webp'', format = ''webp''\<rparr>]\<rparr>"
  let ?info = "\<lparr>mime_of = ''image/jpeg'', ext_of = ''jpg''\<rparr>"
  let ?out = "\<lparr>blob_bytes = [2, 1], blob_type = ''image/jpeg''\<rparr>"
  have h: "map_of imageMimeMap (toFormat ?s) = Some ?info \<and> originalFiles ?s \<noteq> []"
    by (simp add: examplePage_def imageMimeMap_def)
  have k: "map_of imageMimeMap (toFormat ?s) = Some ?info
        \<and> originalFiles ?s =
        [\<lparr>blob = \<lparr>blob_bytes = [1], blob_type = ''image/png''\<rparr>, originalName = ''a.png'', format = ''png''\<rparr>,
         \<lparr>blob = \<lparr>blob_bytes = [], blob_type = ''image/png''\<rparr>, originalName = ''b.png'', format = ''png''\<rparr>,
         \<lparr>blob = \<lparr>blob_bytes = [3], blob_type = ''image/webp''\<rparr>, originalName = ''c.webp'', format = ''webp''\<rparr>]
        \<and> convertImageFile exampleBrowser (blob \<lparr>blob = \<lparr>blob_bytes = [1], blob_type = ''image/png''\<rparr>, originalName = ''a.png'', format = ''png''\<rparr>) (mime_of ?info) = Some ?out
        \<and> readAsDataURL exampleBrowser (blob \<lparr>blob = \<lparr>blob_bytes = [], blob_type = ''image/png''\<rparr>, originalName = ''b.png'', format = ''png''\<rparr>) = Some ''corrupt''
        \<and> loadImage exampleBrowser ''corrupt'' = None
        \<and> convertImageFile exampleBrowser (blob \<lparr>blob = \<lparr>blob_bytes = [3], blob_type = ''image/webp''\<rparr>, originalName = ''c.webp'', format = ''webp''\<rparr>) (mime_of ?info) = Some ?out"
    by (simp add: examplePage_def imageMimeMap_def exampleBrowser_def convertImageFile_def drawImage_def)
  from conversion_processes_every_item[where s = ?s and info = ?info and br = exampleBrowser
      and t = ?s and info' = ?info and ?i1.0 = "\<lparr>blob = \<lparr>blob_bytes = [1], blob_type = ''image/png''\<rparr>, originalName = ''a.png'', format = ''png''\<rparr>"
      and ?i2.0 = "\<lparr>blob = \<lparr>blob_bytes = [], blob_type = ''image/png''\<rparr>, originalName = ''b.png'', format = ''png''\<rparr>"
      and ?i3.0 = "\<lparr>blob = \<lparr>blob_bytes = [3], blob_type = ''image/webp''\<rparr>, originalName = ''c.webp'', format = ''webp''\<rparr>"
      and ?r1.0 = ?out and ?r3.0 = ?out and u = "''corrupt''"] h k
  show ?thesis
    by (auto simp: changeExtension_def)
qed

lemma map_filename_results:
  "map filename (List.map_filter (resultOf br info) items)
     = map (\<lambda>it. changeExtension (originalName it) (ext_of info))
         [it \<leftarrow> items. convertImageFile br (blob it) (mime_of info) \<noteq> None]"
  by (induction items) (auto simp: List.map_filter_simps resultOf_def split: option.splits)

text \<open>
  C8. The name recorded for a successful conversion is \<open>changeExtension\<close> of the item's
  original name and of the extension the table \<open>imageMimeMap\<close> gives for the target format,
  which is \<open>png\<close> for \<open>png\<close>, \<open>jpg\<close> for \<open>jpeg\<close> and \<open>webp\<close> for \<open>webp\<close>. \<open>changeExtension\<close>
  replaces what follows the last full stop of the name (\<open>photo.png\<close> becomes \<open>photo.jpg\<close>);
  a name without a full stop gets a full stop and the extension appended.
\<close>
theorem result_filename_extension:
  "(map_of imageMimeMap (toFormat s) = Some info \<and> originalFiles s \<noteq> [] \<longrightarrow>
      (\<exists>s'. convertBtnClick br s = Inr s'
         \<and> map filename (convertedResults s')
              = map (\<lambda>it. changeExtension (originalName it) (ext_of info))
                  [it \<leftarrow> originalFiles s. convertImageFile br (blob it) (mime_of info) \<noteq> None]))
   \<and> map (\<lambda>k. map_option ext_of (map_of imageMimeMap k)) [''png'', ''jpeg'', ''webp'']
        = [Some ''png'', Some ''jpg'', Some ''webp'']
   \<and> (CHR ''.'' \<notin> set x \<longrightarrow> changeExtension (stem @ ''.'' @ x) newExt = stem @ ''.'' @ newExt)
   \<and> (CHR ''.'' \<notin> set nm \<longrightarrow> changeExtension nm newExt = nm @ ''.'' @ newExt)
   \<and> changeExtension ''photo.png'' ''jpg'' = ''photo.jpg''"
proof (intro conjI impI)
  assume a: "map_of imageMimeMap (toFormat s) = Some info \<and> originalFiles s \<noteq> []"
  then obtain s' where s': "convertBtnClick br s = Inr s'"
    "convertedResults s' = List.map_filter (resultOf br info) (originalFiles s)"
    using convertBtnClick_result[of s info br] by blast
  then show "\<exists>s'. convertBtnClick br s = Inr s'
         \<and> map filename (convertedResults s')
              = map (\<lambda>it. changeExtension (originalName it) (ext_of info))
                  [it \<leftarrow> originalFiles s. convertImageFile br (blob it) (mime_of info) \<noteq> None]"
    by (simp add: map_filename_results)
next
  show "map (\<lambda>k. map_option ext_of (map_of imageMimeMap k)) [''png'', ''jpeg'', ''webp'']
        = [Some ''png'', Some ''jpg'', Some ''webp'']"
    by (simp add: imageMimeMap_def)
next
  assume "CHR ''.'' \<notin> set x"
  then show "changeExtension (stem @ ''.'' @ x) newExt = stem @ ''.'' @ newExt"
    by (simp add: changeExtension_dotted)
next
  assume "CHR ''.'' \<notin> set nm"
  then show "changeExtension nm newExt = nm @ ''.'' @ newExt"
    by (rule changeExtension_dotless)
next
  show "changeExtension ''photo.png'' ''jpg'' = ''photo.jpg''"
    by (simp add: changeExtension_def)
qed

theorem result_filename_extension_witness:
  "(\<exists>s'. convertBtnClick exampleBrowser
      (examplePage\<lparr>originalFiles :=
        [\<lparr>blob = \<lparr>blob_bytes = [1], blob_type = ''image/png''\<rparr>, originalName = ''photo.png'', format = ''png''\<rparr>,
         \<lparr>blob = \<lparr>blob_bytes = [2], blob_type = ''image/png''\<rparr>, originalName = ''scan'', format = ''png''\<rparr>]\<rparr>)
      = Inr s'
    \<and> map filename (convertedResults s') = [''photo.jpg'', ''scan.jpg''])
   \<and> changeExtension ''archive.tar.png'' ''webp'' = ''archive.tar.webp''
   \<and> changeExtension ''scan'' ''jpg'' = ''scan.jpg''"
proof -
  let ?s = "examplePage\<lparr>originalFiles :=
        [\<lparr>blob = \<lparr>blob_bytes = [1], blob_type = ''image/png''\<rparr>, originalName = ''photo.png'', format = ''png''\<rparr>,
         \<lparr>blob = \<lparr>blob_bytes = [2], blob_type = ''image/png''\<rparr>, originalName = ''scan'', format = ''png''\<rparr>]\<rparr>"
  let ?info = "\<lparr>mime_of = ''image/jpeg'', ext_of = ''jpg''\<rparr>"
  have h: "map_of imageMimeMap (toFormat ?s) = Some ?info \<and> originalFiles ?s \<noteq> []"
    by (simp add: examplePage_def imageMimeMap_def)
  have x: "CHR ''.'' \<notin> set ''png''" and n: "CHR ''.'' \<notin> set ''scan''" by simp_all
  from result_filename_extension[where s = ?s and info = ?info and br = exampleBrowser
      and x = "''png''" and stem = "''archive.tar''" and newExt = "''webp''"] h x
  have 1: "\<exists>s'. convertBtnClick exampleBrowser ?s = Inr s'
         \<and> map filename (convertedResults s')
              = map (\<lambda>it. changeExtension (originalName it) (ext_of ?info))
                  [it \<leftarrow> originalFiles ?s. convertImageFile exampleBrowser (blob it) (mime_of ?info) \<noteq> None]"
    and 2: "changeExtension (''archive.tar'' @ ''.'' @ ''png'') ''webp'' = ''archive.tar'' @ ''.'' @ ''webp''"
    by blast+
  from result_filename_extension[where nm = "''scan''" and newExt = "''jpg''"] n
  have 3: "changeExtension ''scan'' ''jpg'' = ''scan'' @ ''.'' @ ''jpg''" by blast
  from 1 2 3 show ?thesis
    by (simp add: exampleBrowser_def convertImageFile_def changeExtension_dotless
        changeExtension_dotted[where stem = "''photo''" and x = "''png''", simplified])
qed

section \<open>Reading the selected files: loose files\<close>

lemma toLowerCase_append: "toLowerCase (a @ b) = toLowerCase a @ toLowerCase b"
  by (simp add: toLowerCase_def)

lemma toLowerChar_dot: "toLowerChar (CHR ''.'') = CHR ''.''"
  by (simp add: toLowerChar_def)

text \<open>A name whose extension is \<open>zip\<close> is recognised as an archive.\<close>

lemma extension_zip_isZipFile:
  assumes "toLowerCase (getExtension (file_name f)) = ''zip''"
  shows "isZipFile f"
proof -
  have "CHR ''.'' \<in> set (file_name f)"
  proof (rule ccontr)
    assume "CHR ''.'' \<notin> set (file_name f)"
    then have "getExtension (file_name f) = []" by (rule getExtension_dotless)
    with assms show False by (simp add: toLowerCase_def)
  qed
  from dot_decompose[OF this] obtain stem x
    where d: "file_name f = stem @ CHR ''.'' # x" "CHR ''.'' \<notin> set x" by blast
  then have "getExtension (file_name f) = x" by (simp add: getExtension_dotted)
  with assms have "toLowerCase x = ''zip''" by simp
  then have "toLowerCase (file_name f) = toLowerCase stem @ ''.zip''"
    by (simp add: d(1) toLowerCase_append) (simp add: toLowerCase_def toLowerChar_dot)
  then show ?thesis by (simp add: isZipFile_def suffix_def)
qed

lemma handleFiles_single_regular:
  "\<not> isZipFile f \<Longrightarrow> handleFiles br s [f] = handleRegularFile s f"
  by simp

lemma handleRegularFile_png:
  "file_type f = ''image/png'' \<Longrightarrow> handleRegularFile s f
     = pushOriginal s \<lparr>blob = blobOfFile f, originalName = file_name f, format = ''png''\<rparr>"
  by (simp add: handleRegularFile_def isImageFileSupported_def)

lemma handleRegularFile_jpeg:
  "file_type f = ''image/jpeg'' \<Longrightarrow> handleRegularFile s f
     = pushOriginal s \<lparr>blob = blobOfFile f, originalName = file_name f, format = ''jpeg''\<rparr>"
  by (simp add: handleRegularFile_def isImageFileSupported_def)

lemma handleRegularFile_webp:
  "file_type f = ''image/webp'' \<Longrightarrow> handleRegularFile s f
     = pushOriginal s \<lparr>blob = blobOfFile f, originalName = file_name f, format = ''webp''\<rparr>"
  by (simp add: handleRegularFile_def isImageFileSupported_def)

lemma handleRegularFile_unsupported:
  assumes "\<not> isImageFileSupported f"
  shows "handleRegularFile s f
     = pushError s (if toLowerCase (getExtension (file_name f)) = ''zip''
                    then ZipProblem (file_name f) else UnsupportedExtension (file_name f))"
  using assms by (simp add: handleRegularFile_def Let_def)

lemma handleRegularFile_near_miss:
  assumes "isImageFileSupported f"
    "file_type f \<noteq> ''image/png''" "file_type f \<noteq> ''image/jpeg''" "file_type f \<noteq> ''image/webp''"
  shows "handleRegularFile s f = pushError s (UnsupportedImageFormat (file_name f))"
  using assms by (simp add: handleRegularFile_def Let_def)

lemma handleRegularFile_other:
  assumes "file_type f \<noteq> ''image/png''" "file_type f \<noteq> ''image/jpeg''" "file_type f \<noteq> ''image/webp''"
  shows "\<exists>m. handleRegularFile s f = pushError s m \<and> messageName m = file_name f"
proof (cases "isImageFileSupported f")
  case True
  from handleRegularFile_near_miss[OF True assms, of s] show ?thesis
    by (intro exI[of _ "UnsupportedImageFormat (file_name f)"]) simp
next
  case False
  from handleRegularFile_unsupported[OF False, of s] show ?thesis
    by (intro exI[of _ "if toLowerCase (getExtension (file_name f)) = ''zip''
                    then ZipProblem (file_name f) else UnsupportedExtension (file_name f)"]) simp
qed

text \<open>
  C2. A file that is not taken for an archive is classified by its declared content type
  alone: \<open>image/png\<close>, \<open>image/jpeg\<close> and \<open>image/webp\<close> are accepted with the tags \<open>png\<close>,
  \<open>jpeg\<close> and \<open>webp\<close>, whatever the name of the file; every other type is rejected with one
  message naming the file, whatever its extension. Two files of the same declared type
  get the same tag or are both rejected.
\<close>
theorem loose_file_classified_by_type:
  "(file_type f = ''image/png'' \<longrightarrow>
      handleRegularFile s f
        = pushOriginal s \<lparr>blob = blobOfFile f, originalName = file_name f, format = ''png''\<rparr>)
   \<and> (file_type f = ''image/jpeg'' \<longrightarrow>
      handleRegularFile s f
        = pushOriginal s \<lparr>blob = blobOfFile f, originalName = file_name f, format = ''jpeg''\<rparr>)
   \<and> (file_type f = ''image/webp'' \<longrightarrow>
      handleRegularFile s f
        = pushOriginal s \<lparr>blob = blobOfFile f, originalName = file_name f, format = ''webp''\<rparr>)
   \<and> (file_type f \<noteq> ''image/png'' \<and> file_type f \<noteq> ''image/jpeg'' \<and> file_type f \<noteq> ''image/webp'' \<longrightarrow>
      (\<exists>m. handleRegularFile s f = pushError s m \<and> messageName m = file_name f))
   \<and> (file_type f = file_type g \<longrightarrow>
      map format (originalFiles (handleRegularFile s f))
        = map format (originalFiles (handleRegularFile s g)))
   \<and> (\<not> isZipFile f \<longrightarrow> handleFiles br s [f] = handleRegularFile s f)"
proof (intro conjI impI)
  assume "file_type f = ''image/png''"
  then show "handleRegularFile s f
        = pushOriginal s \<lparr>blob = blobOfFile f, originalName = file_name f, format = ''png''\<rparr>"
    by (rule handleRegularFile_png)
next
  assume "file_type f = ''image/jpeg''"
  then show "handleRegularFile s f
        = pushOriginal s \<lparr>blob = blobOfFile f, originalName = file_name f, format = ''jpeg''\<rparr>"
    by (rule handleRegularFile_jpeg)
next
  assume "file_type f = ''image/webp''"
  then show "handleRegularFile s f
        = pushOriginal s \<lparr>blob = blobOfFile f, originalName = file_name f, format = ''webp''\<rparr>"
    by (rule handleRegularFile_webp)
next
  assume "file_type f \<noteq> ''image/png'' \<and> file_type f \<noteq> ''image/jpeg'' \<and> file_type f \<noteq> ''image/webp''"
  then show "\<exists>m. handleRegularFile s f = pushError s m \<and> messageName m = file_name f"
    using handleRegularFile_other[of f s] by blast
next
  assume eq: "file_type f = file_type g"
  have tags: "\<And>h :: fileObject. map format (originalFiles (handleRegularFile s h))
            = map format (originalFiles s)
              @ (if file_type h = ''image/png'' then [''png'']
                 else if file_type h = ''image/jpeg'' then [''jpeg'']
                 else if file_type h = ''image/webp'' then [''webp''] else [])"
  proof -
    fix h :: fileObject
    consider "file_type h = ''image/png''" | "file_type h = ''image/jpeg''"
      | "file_type h = ''image/webp''"
      | "file_type h \<noteq> ''image/png''" "file_type h \<noteq> ''image/jpeg''" "file_type h \<noteq> ''image/webp''"
      by blast
    then show "map format (originalFiles (handleRegularFile s h))
            = map format (originalFiles s)
              @ (if file_type h = ''image/png'' then [''png'']
                 else if file_type h = ''image/jpeg'' then [''jpeg'']
                 else if file_type h = ''image/webp'' then [''webp''] else [])"
    proof cases
      case 1 then show ?thesis by (simp add: handleRegularFile_png pushOriginal_def)
    next
      case 2 then show ?thesis by (simp add: handleRegularFile_jpeg pushOriginal_def)
    next
      case 3 then show ?thesis by (simp add: handleRegularFile_webp pushOriginal_def)
    next
      case 4
      from handleRegularFile_other[OF 4, of s] obtain m
        where "handleRegularFile s h = pushError s m" by blast
      with 4 show ?thesis by (simp add: pushError_def)
    qed
  qed
  show "map format (originalFiles (handleRegularFile s f))
        = map format (originalFiles (handleRegularFile s g))"
    by (simp only: tags eq)
next
  assume "\<not> isZipFile f"
  then show "handleFiles br s [f] = handleRegularFile s f" by (rule handleFiles_single_regular)
qed

theorem loose_file_classified_by_type_witness:
  "map format (originalFiles (handleFiles exampleBrowser examplePage
      [\<lparr>file_name = ''photo.txt'', file_type = ''image/png'', file_bytes = [1]\<rparr>])) = [''png'']
   \<and> map format (originalFiles (handleRegularFile examplePage
      \<lparr>file_name = ''photo.png'', file_type = ''image/jpeg'', file_bytes = [1]\<rparr>)) = [''jpeg'']
   \<and> map format (originalFiles (handleRegularFile examplePage
      \<lparr>file_name = ''photo.jpg'', file_type = ''image/webp'', file_bytes = [1]\<rparr>)) = [''webp'']
   \<and> (\<exists>m. handleRegularFile examplePage
             \<lparr>file_name = ''photo.png'', file_type = ''text/plain'', file_bytes = [1]\<rparr>
           = pushError examplePage m \<and> messageName m = ''photo.png'')"
proof -
  let ?a = "\<lparr>file_name = ''photo.txt'', file_type = ''image/png'', file_bytes = [1]\<rparr>"
  let ?b = "\<lparr>file_name = ''photo.png'', file_type = ''image/jpeg'', file_bytes = [1]\<rparr>"
  let ?c = "\<lparr>file_name = ''photo.jpg'', file_type = ''image/webp'', file_bytes = [1]\<rparr>"
  let ?d = "\<lparr>file_name = ''photo.png'', file_type = ''text/plain'', file_bytes = [1]\<rparr>"
  have za: "\<not> isZipFile ?a"
    by (simp add: isZipFile_def toLowerCase_def toLowerChar_def suffix_to_prefix)
  from loose_file_classified_by_type[where f = ?a and s = examplePage and br = exampleBrowser] za
  have a: "handleFiles exampleBrowser examplePage [?a]
        = pushOriginal examplePage \<lparr>blob = blobOfFile ?a, originalName = file_name ?a, format = ''png''\<rparr>"
    by simp
  from loose_file_classified_by_type[where f = ?b and s = examplePage]
  have b: "handleRegularFile examplePage ?b
        = pushOriginal examplePage \<lparr>blob = blobOfFile ?b, originalName = file_name ?b, format = ''jpeg''\<rparr>"
    by simp
  from loose_file_classified_by_type[where f = ?c and s = examplePage]
  have c: "handleRegularFile examplePage ?c
        = pushOriginal examplePage \<lparr>blob = blobOfFile ?c, originalName = file_name ?c, format = ''webp''\<rparr>"
    by simp
  from loose_file_classified_by_type[where f = ?d and s = examplePage]
  have d: "\<exists>m. handleRegularFile examplePage ?d = pushError examplePage m
             \<and> messageName m = file_name ?d"
    by simp
  from a b c d show ?thesis
    by (simp add: pushOriginal_def examplePage_def)
qed

text \<open>
  C9 fails for a declared type that contains one of the three supported types without
  being one of them: \<open>isImageFileSupported\<close> searches the type for \<open>image/png\<close>,
  \<open>image/jpeg\<close> or \<open>image/webp\<close>, so \<open>image/jpeg2000\<close> passes it, and the file is then
  refused with the message for an unsupported image format, not the one for an
  unsupported extension.
\<close>
theorem near_miss_type_counterexample:
  "\<not> isZipFile \<lparr>file_name = ''scan.jp2'', file_type = ''image/jpeg2000'', file_bytes = [1]\<rparr>
   \<and> ''image/jpeg2000'' \<notin> {''image/png'', ''image/jpeg'', ''image/webp''}
   \<and> toLowerCase (getExtension ''scan.jp2'') \<noteq> ''zip''
   \<and> errorResults (inputFilesChange exampleBrowser examplePage
         [\<lparr>file_name = ''scan.jp2'', file_type = ''image/jpeg2000'', file_bytes = [1]\<rparr>])
       = [UnsupportedImageFormat ''scan.jp2'']
   \<and> errorResults (inputFilesChange exampleBrowser examplePage
         [\<lparr>file_name = ''scan.jp2'', file_type = ''image/jpeg2000'', file_bytes = [1]\<rparr>])
       \<noteq> [UnsupportedExtension ''scan.jp2'']"
  by (simp add: isZipFile_def toLowerCase_def toLowerChar_def suffix_to_prefix getExtension_def
      inputFilesChange_def clearResults_def handleRegularFile_def isImageFileSupported_def
      pushError_def setFromFormatOption_def examplePage_def Let_def appendErrorResult_def)

text \<open>
  C9, amended. For a file whose declared type contains none of \<open>image/png\<close>, \<open>image/jpeg\<close>
  and \<open>image/webp\<close>, \<open>handleRegularFile\<close> pushes the message for a problem with an archive
  when the extension is \<open>zip\<close>, and the message for an unsupported extension otherwise,
  naming the file. A declared type that contains one of the three without being equal
  to it gets the message for an unsupported image format. A file that is not taken for
  an archive never has the extension \<open>zip\<close>, so from the \<open>change\<close> handler the first of
  the three messages does not arise.
\<close>
theorem unsupported_type_messages:
  "(\<not> isImageFileSupported f \<and> toLowerCase (getExtension (file_name f)) = ''zip'' \<longrightarrow>
      handleRegularFile s f = pushError s (ZipProblem (file_name f)))
   \<and> (\<not> isImageFileSupported f' \<and> toLowerCase (getExtension (file_name f')) \<noteq> ''zip'' \<longrightarrow>
      handleRegularFile s f' = pushError s (UnsupportedExtension (file_name f')))
   \<and> (isImageFileSupported f'' \<and> file_type f'' \<noteq> ''image/png'' \<and> file_type f'' \<noteq> ''image/jpeg''
        \<and> file_type f'' \<noteq> ''image/webp'' \<longrightarrow>
      handleRegularFile s f'' = pushError s (UnsupportedImageFormat (file_name f'')))
   \<and> (\<not> isZipFile g \<longrightarrow>
      toLowerCase (getExtension (file_name g)) \<noteq> ''zip''
      \<and> handleFiles br s [g] = handleRegularFile s g)
   \<and> (\<not> isZipFile g' \<and> \<not> isImageFileSupported g' \<longrightarrow>
      handleFiles br s [g'] = pushError s (UnsupportedExtension (file_name g')))"
proof (intro conjI impI)
  assume "\<not> isImageFileSupported f \<and> toLowerCase (getExtension (file_name f)) = ''zip''"
  then show "handleRegularFile s f = pushError s (ZipProblem (file_name f))"
    by (simp add: handleRegularFile_unsupported)
next
  assume "\<not> isImageFileSupported f' \<and> toLowerCase (getExtension (file_name f')) \<noteq> ''zip''"
  then show "handleRegularFile s f' = pushError s (UnsupportedExtension (file_name f'))"
    by (simp add: handleRegularFile_unsupported)
next
  assume "isImageFileSupported f'' \<and> file_type f'' \<noteq> ''image/png'' \<and> file_type f'' \<noteq> ''image/jpeg''
        \<and> file_type f'' \<noteq> ''image/webp''"
  then show "handleRegularFile s f'' = pushError s (UnsupportedImageFormat (file_name f''))"
    by (simp add: handleRegularFile_near_miss)
next
  assume "\<not> isZipFile g"
  then show "toLowerCase (getExtension (file_name g)) \<noteq> ''zip''"
    using extension_zip_isZipFile[of g] by blast
next
  assume "\<not> isZipFile g"
  then show "handleFiles br s [g] = handleRegularFile s g" by (rule handleFiles_single_regular)
next
  assume a: "\<not> isZipFile g' \<and> \<not> isImageFileSupported g'"
  then have "toLowerCase (getExtension (file_name g')) \<noteq> ''zip''"
    using extension_zip_isZipFile[of g'] by blast
  with a show "handleFiles br s [g'] = pushError s (UnsupportedExtension (file_name g'))"
    by (simp add: handleRegularFile_unsupported)
qed

theorem unsupported_type_messages_witness:
  "handleRegularFile examplePage \<lparr>file_name = ''old.ZIP'', file_type = ''text/plain'', file_bytes = [1]\<rparr>
     = pushError examplePage (ZipProblem ''old.ZIP'')
   \<and> handleRegularFile examplePage \<lparr>file_name = ''notes.txt'', file_type = ''text/plain'', file_bytes = [1]\<rparr>
     = pushError examplePage (UnsupportedExtension ''notes.txt'')
   \<and> handleRegularFile examplePage \<lparr>file_name = ''scan.jp2'', file_type = ''image/jpeg2000'', file_bytes = [1]\<rparr>
     = pushError examplePage (UnsupportedImageFormat ''scan.jp2'')
   \<and> toLowerCase (getExtension ''notes.txt'') \<noteq> ''zip''
   \<and> handleFiles exampleBrowser examplePage
        [\<lparr>file_name = ''notes.txt'', file_type = ''text/plain'', file_bytes = [1]\<rparr>]
     = pushError examplePage (UnsupportedExtension ''notes.txt'')"
proof -
  let ?z = "\<lparr>file_name = ''old.ZIP'', file_type = ''text/plain'', file_bytes = [1]\<rparr>"
  let ?n = "\<lparr>file_name = ''notes.txt'', file_type = ''text/plain'', file_bytes = [1]\<rparr>"
  let ?j = "\<lparr>file_name = ''scan.jp2'', file_type = ''image/jpeg2000'', file_bytes = [1]\<rparr>"
  have z: "\<not> isImageFileSupported ?z \<and> toLowerCase (getExtension (file_name ?z)) = ''zip''"
    by (simp add: isImageFileSupported_def getExtension_def toLowerCase_def toLowerChar_def)
  have n: "\<not> isImageFileSupported ?n \<and> toLowerCase (getExtension (file_name ?n)) \<noteq> ''zip''"
    by (simp add: isImageFileSupported_def getExtension_def toLowerCase_def toLowerChar_def)
  have j: "isImageFileSupported ?j \<and> file_type ?j \<noteq> ''image/png'' \<and> file_type ?j \<noteq> ''image/jpeg''
        \<and> file_type ?j \<noteq> ''image/webp''"
    by (simp add: isImageFileSupported_def)
  have g: "\<not> isZipFile ?n"
    by (simp add: isZipFile_def toLowerCase_def toLowerChar_def suffix_to_prefix)
  have g': "\<not> isZipFile ?n \<and> \<not> isImageFileSupported ?n"
    using g n by simp
  from unsupported_type_messages[where f = ?z and f' = ?n and f'' = ?j and g = ?n and g' = ?n
      and s = examplePage and br = exampleBrowser] z n j g g'
  show ?thesis by simp
qed

section \<open>The source-format selector\<close>

lemma set_newSet: "set (newSet S xs) = set S \<union> set xs"
proof (induction xs arbitrary: S)
  case Nil show ?case by simp
next
  case (Cons x xs)
  show ?case by (simp add: Cons.IH set_setAdd)
qed

lemma distinct_newSet: "distinct S \<Longrightarrow> distinct (newSet S xs)"
proof (induction xs arbitrary: S)
  case Nil then show ?case by simp
next
  case (Cons x xs)
  have "distinct (setAdd x S)" using Cons.prems by (simp add: setAdd_def)
  then show ?case by (simp add: Cons.IH)
qed

lemma newSet_single:
  assumes "xs \<noteq> []" and "\<forall>x\<in>set xs. x = t"
  shows "newSet [] xs = [t]"
proof -
  from assms have "set xs = {t}" by (cases xs) auto
  then have s: "set (newSet [] xs) = {t}" by (simp add: set_newSet)
  have d: "distinct (newSet [] xs)" by (simp add: distinct_newSet)
  from d have "length (newSet [] xs) = card (set (newSet [] xs))" by (simp add: distinct_card)
  with s have "length (newSet [] xs) = 1" by simp
  then obtain a where "newSet [] xs = [a]" by (cases "newSet [] xs") simp_all
  with s show ?thesis by simp
qed

lemma newSet_several:
  assumes "a \<in> set xs" and "b \<in> set xs" and "a \<noteq> b"
  shows "length (newSet [] xs) \<noteq> 1"
proof
  assume "length (newSet [] xs) = 1"
  then obtain c where c: "newSet [] xs = [c]" by (cases "newSet [] xs") simp_all
  have "set xs = set (newSet [] xs)" by (simp add: set_newSet)
  also have "\<dots> = {c}" by (simp only: c list.set)
  finally have sc: "set xs = {c}" .
  from assms(1) sc have "a = c" by blast
  moreover from assms(2) sc have "b = c" by blast
  ultimately show False using assms(3) by blast
qed

lemma setFromFormatOption_fromFormat:
  "sel_disabled (fromFormat (setFromFormatOption s))
   \<and> (originalFiles s = [] \<longrightarrow> sel_value (fromFormat (setFromFormatOption s)) = ''mixed'')
   \<and> (originalFiles s \<noteq> [] \<and> (\<forall>it\<in>set (originalFiles s). format it = t) \<longrightarrow>
        sel_value (fromFormat (setFromFormatOption s)) = t)
   \<and> ((\<exists>a\<in>set (originalFiles s). \<exists>b\<in>set (originalFiles s). format a \<noteq> format b) \<longrightarrow>
        sel_value (fromFormat (setFromFormatOption s)) = ''mixed'')"
proof (intro conjI impI)
  show "sel_disabled (fromFormat (setFromFormatOption s))"
    by (simp add: setFromFormatOption_def Let_def)
next
  assume "originalFiles s = []"
  then show "sel_value (fromFormat (setFromFormatOption s)) = ''mixed''"
    by (simp add: setFromFormatOption_def)
next
  assume a: "originalFiles s \<noteq> [] \<and> (\<forall>it\<in>set (originalFiles s). format it = t)"
  then have "newSet [] (map format (originalFiles s)) = [t]"
    by (intro newSet_single) auto
  with a show "sel_value (fromFormat (setFromFormatOption s)) = t"
    by (simp add: setFromFormatOption_def)
next
  assume "\<exists>a\<in>set (originalFiles s). \<exists>b\<in>set (originalFiles s). format a \<noteq> format b"
  then obtain a b where ab: "a \<in> set (originalFiles s)" "b \<in> set (originalFiles s)"
    "format a \<noteq> format b" by blast
  then have "length (newSet [] (map format (originalFiles s))) \<noteq> 1"
    by (intro newSet_several[of "format a" _ "format b"]) auto
  moreover from ab have "originalFiles s \<noteq> []" by auto
  ultimately show "sel_value (fromFormat (setFromFormatOption s)) = ''mixed''"
    by (simp add: setFromFormatOption_def Let_def)
qed

lemma setFromFormatOption_originalFiles:
  "originalFiles (setFromFormatOption s) = originalFiles s"
  by (simp add: setFromFormatOption_def Let_def)

lemma appendErrorResults_fields:
  "originalFiles (appendErrorResults s ms) = originalFiles s
   \<and> fromFormat (appendErrorResults s ms) = fromFormat s"
  by (induction ms arbitrary: s) (simp_all add: appendErrorResult_def)

lemma inputFilesChange_nonempty:
  assumes "files \<noteq> []"
  shows "\<exists>s2. originalFiles (inputFilesChange br s files) = originalFiles s2
            \<and> fromFormat (inputFilesChange br s files) = fromFormat (setFromFormatOption s2)"
proof -
  define s2 where "s2 = handleFiles br
      ((clearResults s)\<lparr>originalFiles := [], errorResults := [], convertedResults := []\<rparr>) files"
  have "originalFiles (inputFilesChange br s files) = originalFiles s2"
    using assms
    by (simp add: inputFilesChange_def Let_def appendErrorResults_fields
        setFromFormatOption_originalFiles s2_def)
  moreover have "fromFormat (inputFilesChange br s files) = fromFormat (setFromFormatOption s2)"
    using assms
    by (simp add: inputFilesChange_def Let_def appendErrorResults_fields
        setFromFormatOption_originalFiles s2_def)
  ultimately show ?thesis by blast
qed

lemma inputFilesChange_empty:
  "fromFormat (inputFilesChange br s []) = fromFormat s
   \<and> originalFiles (inputFilesChange br s []) = []"
  by (simp add: inputFilesChange_def clearResults_def)

text \<open>
  C7 fails for a pass over an empty selection: the \<open>change\<close> handler then empties the work
  list and returns before \<open>setFromFormatOption\<close>, so the selector stays as it was. After
  a selection of one PNG file and then an empty selection, no item is accepted and the
  selector still shows \<open>png\<close>; on the example page, whose selector starts editable, an
  empty selection leaves it editable.
\<close>
theorem empty_selection_counterexample:
  "originalFiles (inputFilesChange exampleBrowser
      (inputFilesChange exampleBrowser examplePage
         [\<lparr>file_name = ''a.png'', file_type = ''image/png'', file_bytes = [1]\<rparr>]) []) = []
   \<and> fromFormat (inputFilesChange exampleBrowser
      (inputFilesChange exampleBrowser examplePage
         [\<lparr>file_name = ''a.png'', file_type = ''image/png'', file_bytes = [1]\<rparr>]) [])
     = \<lparr>sel_value = ''png'', sel_disabled = True\<rparr>
   \<and> fromFormat (inputFilesChange exampleBrowser examplePage [])
     = \<lparr>sel_value = ''png'', sel_disabled = False\<rparr>"
  by (simp add: inputFilesChange_def clearResults_def handleRegularFile_def
      isImageFileSupported_def isZipFile_def toLowerCase_def toLowerChar_def suffix_to_prefix
      getExtension_def pushOriginal_def setFromFormatOption_def setAdd_def examplePage_def
      Let_def)

text \<open>
  C7, amended. \<open>setFromFormatOption\<close> always disables the selector; its value is \<open>mixed\<close>
  when there is no accepted item, the common tag when all accepted items have the same
  tag, and \<open>mixed\<close> when two accepted items differ in their tags. After the \<open>change\<close>
  handler has run on a selection that is not empty, the selector is in that state for
  the items it accepted.
\<close>
theorem selector_after_selection:
  "sel_disabled (fromFormat (setFromFormatOption s))
   \<and> (originalFiles s = [] \<longrightarrow> sel_value (fromFormat (setFromFormatOption s)) = ''mixed'')
   \<and> (originalFiles s \<noteq> [] \<and> (\<forall>it\<in>set (originalFiles s). format it = t) \<longrightarrow>
        sel_value (fromFormat (setFromFormatOption s)) = t)
   \<and> ((\<exists>a\<in>set (originalFiles s). \<exists>b\<in>set (originalFiles s). format a \<noteq> format b) \<longrightarrow>
        sel_value (fromFormat (setFromFormatOption s)) = ''mixed'')
   \<and> (files \<noteq> [] \<longrightarrow>
        sel_disabled (fromFormat (inputFilesChange br p files))
        \<and> (originalFiles (inputFilesChange br p files) = [] \<longrightarrow>
             sel_value (fromFormat (inputFilesChange br p files)) = ''mixed'')
        \<and> (originalFiles (inputFilesChange br p files) \<noteq> []
             \<and> (\<forall>it\<in>set (originalFiles (inputFilesChange br p files)). format it = t') \<longrightarrow>
             sel_value (fromFormat (inputFilesChange br p files)) = t')
        \<and> ((\<exists>a\<in>set (originalFiles (inputFilesChange br p files)).
              \<exists>b\<in>set (originalFiles (inputFilesChange br p files)). format a \<noteq> format b) \<longrightarrow>
             sel_value (fromFormat (inputFilesChange br p files)) = ''mixed''))"
proof -
  have fn: "sel_disabled (fromFormat (setFromFormatOption s))
   \<and> (originalFiles s = [] \<longrightarrow> sel_value (fromFormat (setFromFormatOption s)) = ''mixed'')
   \<and> (originalFiles s \<noteq> [] \<and> (\<forall>it\<in>set (originalFiles s). format it = t) \<longrightarrow>
        sel_value (fromFormat (setFromFormatOption s)) = t)
   \<and> ((\<exists>a\<in>set (originalFiles s). \<exists>b\<in>set (originalFiles s). format a \<noteq> format b) \<longrightarrow>
        sel_value (fromFormat (setFromFormatOption s)) = ''mixed'')"
    by (rule setFromFormatOption_fromFormat)
  have hd: "files \<noteq> [] \<longrightarrow>
        sel_disabled (fromFormat (inputFilesChange br p files))
        \<and> (originalFiles (inputFilesChange br p files) = [] \<longrightarrow>
             sel_value (fromFormat (inputFilesChange br p files)) = ''mixed'')
        \<and> (originalFiles (inputFilesChange br p files) \<noteq> []
             \<and> (\<forall>it\<in>set (originalFiles (inputFilesChange br p files)). format it = t') \<longrightarrow>
             sel_value (fromFormat (inputFilesChange br p files)) = t')
        \<and> ((\<exists>a\<in>set (originalFiles (inputFilesChange br p files)).
              \<exists>b\<in>set (originalFiles (inputFilesChange br p files)). format a \<noteq> format b) \<longrightarrow>
             sel_value (fromFormat (inputFilesChange br p files)) = ''mixed'')"
  proof
    assume "files \<noteq> []"
    from inputFilesChange_nonempty[OF this, of br p] obtain s2
      where o: "originalFiles (inputFilesChange br p files) = originalFiles s2"
        and f: "fromFormat (inputFilesChange br p files) = fromFormat (setFromFormatOption s2)"
      by blast
    from setFromFormatOption_fromFormat[of s2 t']
    show "sel_disabled (fromFormat (inputFilesChange br p files))
        \<and> (originalFiles (inputFilesChange br p files) = [] \<longrightarrow>
             sel_value (fromFormat (inputFilesChange br p files)) = ''mixed'')
        \<and> (originalFiles (inputFilesChange br p files) \<noteq> []
             \<and> (\<forall>it\<in>set (originalFiles (inputFilesChange br p files)). format it = t') \<longrightarrow>
             sel_value (fromFormat (inputFilesChange br p files)) = t')
        \<and> ((\<exists>a\<in>set (originalFiles (inputFilesChange br p files)).
              \<exists>b\<in>set (originalFiles (inputFilesChange br p files)). format a \<noteq> format b) \<longrightarrow>
             sel_value (fromFormat (inputFilesChange br p files)) = ''mixed'')"
      unfolding o f .
  qed
  from fn hd show ?thesis by blast
qed

lemma example_selection_png:
  "originalFiles (inputFilesChange exampleBrowser examplePage
      [\<lparr>file_name = ''a.png'', file_type = ''image/png'', file_bytes = [1]\<rparr>,
       \<lparr>file_name = ''b.png'', file_type = ''image/png'', file_bytes = [2]\<rparr>])
   = [\<lparr>blob = \<lparr>blob_bytes = [1], blob_type = ''image/png''\<rparr>, originalName = ''a.png'', format = ''png''\<rparr>,
      \<lparr>blob = \<lparr>blob_bytes = [2], blob_type = ''image/png''\<rparr>, originalName = ''b.png'', format = ''png''\<rparr>]"
  by (simp add: inputFilesChange_def clearResults_def handleRegularFile_def
      isImageFileSupported_def isZipFile_def toLowerCase_def toLowerChar_def suffix_to_prefix
      getExtension_def pushOriginal_def setFromFormatOption_originalFiles
      appendErrorResults_fields examplePage_def blobOfFile_def Let_def)

lemma example_selection_archive:
  "originalFiles (inputFilesChange exampleBrowser examplePage
      [\<lparr>file_name = ''pics.zip'', file_type = ''application/zip'', file_bytes = [80, 75]\<rparr>])
   = [\<lparr>blob = \<lparr>blob_bytes = [1], blob_type = ''image/png''\<rparr>, originalName = ''photos/a.PNG'', format = ''png''\<rparr>,
      \<lparr>blob = \<lparr>blob_bytes = [3], blob_type = ''image/jpeg''\<rparr>, originalName = ''b.jpg'', format = ''jpeg''\<rparr>]"
  by (simp add: inputFilesChange_def clearResults_def handleZipFile_def handleZipEntry_def
      isZipFile_def toLowerCase_def toLowerChar_def suffix_to_prefix supportedExtensions_def
      guessMimeTypeFromExt_def exampleBrowser_def pushError_def
      getExtension_def pushOriginal_def setFromFormatOption_originalFiles
      appendErrorResults_fields examplePage_def Let_def)

lemma example_selection_text:
  "originalFiles (inputFilesChange exampleBrowser examplePage
      [\<lparr>file_name = ''notes.txt'', file_type = ''text/plain'', file_bytes = [1]\<rparr>]) = []"
  by (simp add: inputFilesChange_def clearResults_def handleRegularFile_def
      isImageFileSupported_def isZipFile_def toLowerCase_def toLowerChar_def suffix_to_prefix
      getExtension_def pushError_def setFromFormatOption_originalFiles
      appendErrorResults_fields examplePage_def Let_def)

theorem selector_after_selection_witness:
  "sel_disabled (fromFormat (inputFilesChange exampleBrowser examplePage
      [\<lparr>file_name = ''a.png'', file_type = ''image/png'', file_bytes = [1]\<rparr>,
       \<lparr>file_name = ''b.png'', file_type = ''image/png'', file_bytes = [2]\<rparr>]))
   \<and> sel_value (fromFormat (inputFilesChange exampleBrowser examplePage
      [\<lparr>file_name = ''a.png'', file_type = ''image/png'', file_bytes = [1]\<rparr>,
       \<lparr>file_name = ''b.png'', file_type = ''image/png'', file_bytes = [2]\<rparr>])) = ''png''
   \<and> sel_value (fromFormat (inputFilesChange exampleBrowser examplePage
      [\<lparr>file_name = ''pics.zip'', file_type = ''application/zip'', file_bytes = [80, 75]\<rparr>])) = ''mixed''
   \<and> sel_value (fromFormat (inputFilesChange exampleBrowser examplePage
      [\<lparr>file_name = ''notes.txt'', file_type = ''text/plain'', file_bytes = [1]\<rparr>])) = ''mixed''
   \<and> sel_value (fromFormat (setFromFormatOption examplePage)) = ''mixed''"
proof -
  let ?two = "[\<lparr>file_name = ''a.png'', file_type = ''image/png'', file_bytes = [1]\<rparr>,
       \<lparr>file_name = ''b.png'', file_type = ''image/png'', file_bytes = [2]\<rparr>]"
  let ?zip = "[\<lparr>file_name = ''pics.zip'', file_type = ''application/zip'', file_bytes = [80, 75]\<rparr>]"
  let ?txt = "[\<lparr>file_name = ''notes.txt'', file_type = ''text/plain'', file_bytes = [1]\<rparr>]"
  have e: "originalFiles examplePage = []" by (simp add: examplePage_def)
  from selector_after_selection[where s = examplePage and br = exampleBrowser and p = examplePage
      and files = ?two and t' = "''png''"] e example_selection_png
  have 1: "sel_disabled (fromFormat (inputFilesChange exampleBrowser examplePage ?two))
      \<and> sel_value (fromFormat (inputFilesChange exampleBrowser examplePage ?two)) = ''png''
      \<and> sel_value (fromFormat (setFromFormatOption examplePage)) = ''mixed''"
    by simp
  have h2: "\<exists>a\<in>set (originalFiles (inputFilesChange exampleBrowser examplePage ?zip)).
            \<exists>b\<in>set (originalFiles (inputFilesChange exampleBrowser examplePage ?zip)).
              format a \<noteq> format b"
    by (simp add: example_selection_archive) blast
  have nz: "?zip \<noteq> []" by simp
  from selector_after_selection[where br = exampleBrowser and p = examplePage and files = ?zip]
    h2 nz
  have 2: "sel_value (fromFormat (inputFilesChange exampleBrowser examplePage ?zip)) = ''mixed''"
    by blast
  from selector_after_selection[where br = exampleBrowser and p = examplePage and files = ?txt]
    example_selection_text
  have 3: "sel_value (fromFormat (inputFilesChange exampleBrowser examplePage ?txt)) = ''mixed''"
    by simp
  from 1 2 3 show ?thesis by blast
qed

section \<open>Reading the selected files: archives\<close>

lemma handleZipEntry_dir: "dir ze \<Longrightarrow> handleZipEntry s (nm, ze) = Normal s"
  by (simp add: handleZipEntry_def)

lemma handleZipEntry_file:
  assumes "\<not> dir ze"
  shows "handleZipEntry s (nm, ze)
     = (case spec_classify nm of
          None \<Rightarrow> Normal (pushError s (UnsupportedExtension nm))
        | Some tag \<Rightarrow>
            (case async_arraybuffer ze of
               None \<Rightarrow> Thrown s
             | Some fileData \<Rightarrow>
                 Normal (pushOriginal s
                   \<lparr>blob = \<lparr>blob_bytes = fileData,
                            blob_type = guessMimeTypeFromExt (toLowerCase (afterLastDot nm))\<rparr>,
                    originalName = nm, format = tag\<rparr>)))"
proof -
  let ?e = "toLowerCase (afterLastDot nm)"
  consider "?e = ''png''" | "?e = ''jpg''" | "?e = ''jpeg''" | "?e = ''webp''"
    | "?e \<noteq> ''png''" "?e \<noteq> ''jpg''" "?e \<noteq> ''jpeg''" "?e \<noteq> ''webp''" by blast
  then show ?thesis
  proof cases
    case 1
    with assms show ?thesis
      by (simp add: handleZipEntry_def spec_classify_def getExtension_afterLastDot
          supportedExtensions_def guessMimeTypeFromExt_def Let_def split: option.split)
  next
    case 2
    with assms show ?thesis
      by (simp add: handleZipEntry_def spec_classify_def getExtension_afterLastDot
          supportedExtensions_def guessMimeTypeFromExt_def Let_def split: option.split)
  next
    case 3
    with assms show ?thesis
      by (simp add: handleZipEntry_def spec_classify_def getExtension_afterLastDot
          supportedExtensions_def guessMimeTypeFromExt_def Let_def split: option.split)
  next
    case 4
    with assms show ?thesis
      by (simp add: handleZipEntry_def spec_classify_def getExtension_afterLastDot
          supportedExtensions_def guessMimeTypeFromExt_def Let_def split: option.split)
  next
    case 5
    with assms show ?thesis
      by (simp add: handleZipEntry_def spec_classify_def getExtension_afterLastDot
          supportedExtensions_def guessMimeTypeFromExt_def Let_def split: option.split)
  qed
qed

lemma handleZipEntries_readable:
  assumes "\<forall>entry\<in>set files. \<not> dir (snd entry) \<and> spec_classify (fst entry) \<noteq> None
             \<longrightarrow> async_arraybuffer (snd entry) \<noteq> None"
  shows "handleZipEntries s files
     = Normal (s\<lparr>originalFiles := originalFiles s @ List.map_filter entryItem files,
                  errorResults := errorResults s @ List.map_filter entryError files\<rparr>)"
  using assms
proof (induction files arbitrary: s)
  case Nil
  show ?case by (simp add: List.map_filter_simps)
next
  case (Cons entry files)
  obtain nm ze where entry: "entry = (nm, ze)" by (cases entry)
  from Cons.prems have rest: "\<forall>entry\<in>set files. \<not> dir (snd entry) \<and> spec_classify (fst entry) \<noteq> None
             \<longrightarrow> async_arraybuffer (snd entry) \<noteq> None" by simp
  note IH = Cons.IH[OF rest]
  show ?case
  proof (cases "dir ze")
    case True
    then show ?thesis
      by (simp add: entry handleZipEntry_dir IH List.map_filter_simps entryItem_def entryError_def)
  next
    case False
    show ?thesis
    proof (cases "spec_classify nm")
      case None
      with False show ?thesis
        by (simp add: entry handleZipEntry_file IH List.map_filter_simps entryItem_def
            entryError_def pushError_def)
    next
      case (Some tag)
      with False Cons.prems obtain fileData where "async_arraybuffer ze = Some fileData"
        by (auto simp: entry)
      with False Some show ?thesis
        by (simp add: entry handleZipEntry_file IH List.map_filter_simps entryItem_def
            entryError_def pushOriginal_def)
    qed
  qed
qed

lemma handleZipFile_readable:
  assumes "arrayBuffer br f = Some buf" and "loadAsync br buf = Some files"
    and "\<forall>entry\<in>set files. \<not> dir (snd entry) \<and> spec_classify (fst entry) \<noteq> None
             \<longrightarrow> async_arraybuffer (snd entry) \<noteq> None"
  shows "handleZipFile br s f
     = s\<lparr>originalFiles := originalFiles s @ List.map_filter entryItem files,
          errorResults := errorResults s @ List.map_filter entryError files\<rparr>"
  using assms(1,2) by (simp add: handleZipFile_def handleZipEntries_readable[OF assms(3)])

lemma spec_classify_dotless: "CHR ''.'' \<notin> set nm \<Longrightarrow> spec_classify nm = None"
  by (simp add: spec_classify_def afterLastDot_def toLowerCase_def)

text \<open>
  C3 fails for an opened archive with an accepted entry whose bytes cannot be read: the
  rejected read is caught by the \<open>try\<close> around the whole loop, which ends there with the
  one message that decompressing the archive failed. In an archive of \<open>a.png\<close>, an
  unreadable \<open>b.png\<close>, \<open>c.png\<close> and \<open>notes.txt\<close>, only \<open>a.png\<close> becomes a work item: \<open>c.png\<close>
  has a supported extension and is not accepted, and no message names \<open>notes.txt\<close>.
\<close>
theorem unreadable_entry_counterexample:
  "isZipFile \<lparr>file_name = ''broken.zip'', file_type = ''application/zip'', file_bytes = [80, 75]\<rparr>
   \<and> loadAsync brokenArchiveBrowser [80, 75]
       = Some [(''a.png'', \<lparr>dir = False, async_arraybuffer = Some [1]\<rparr>),
               (''b.png'', \<lparr>dir = False, async_arraybuffer = None\<rparr>),
               (''c.png'', \<lparr>dir = False, async_arraybuffer = Some [3]\<rparr>),
               (''notes.txt'', \<lparr>dir = False, async_arraybuffer = Some [4]\<rparr>)]
   \<and> toLowerCase (getExtension ''c.png'') = ''png''
   \<and> toLowerCase (getExtension ''notes.txt'') = ''txt''
   \<and> originalFiles (inputFilesChange brokenArchiveBrowser examplePage
         [\<lparr>file_name = ''broken.zip'', file_type = ''application/zip'', file_bytes = [80, 75]\<rparr>])
       = [\<lparr>blob = \<lparr>blob_bytes = [1], blob_type = ''image/png''\<rparr>,
            originalName = ''a.png'', format = ''png''\<rparr>]
   \<and> errorResults (inputFilesChange brokenArchiveBrowser examplePage
         [\<lparr>file_name = ''broken.zip'', file_type = ''application/zip'', file_bytes = [80, 75]\<rparr>])
       = [UnzipFailed ''broken.zip'']"
  by (simp add: inputFilesChange_def clearResults_def handleZipFile_def handleZipEntry_def
      isZipFile_def toLowerCase_def toLowerChar_def suffix_to_prefix supportedExtensions_def
      guessMimeTypeFromExt_def exampleBrowser_def brokenArchiveBrowser_def pushError_def
      getExtension_def pushOriginal_def setFromFormatOption_def setAdd_def
      appendErrorResult_def examplePage_def Let_def)

text \<open>
  C3, amended. In an opened archive whose accepted entries can all be read, an entry that
  is not a folder is classified by what follows the last full stop of its name, compared
  without regard to case: \<open>png\<close> gives the tag \<open>png\<close>, \<open>jpg\<close> and \<open>jpeg\<close> give \<open>jpeg\<close>, \<open>webp\<close>
  gives \<open>webp\<close>, and the entry becomes a work item under its own name; a name without a
  full stop, or with any other extension, is refused with the message for an unsupported
  extension, naming the entry. The work list grows by the accepted entries, in their
  order, and the messages by the refused ones.
\<close>
theorem archive_entry_classified_by_extension:
  "(\<not> dir ze \<and> spec_classify nm = None \<longrightarrow>
      handleZipEntry s (nm, ze) = Normal (pushError s (UnsupportedExtension nm)))
   \<and> (\<not> dir ze' \<and> spec_classify nm' = Some tag \<and> async_arraybuffer ze' = Some fileData \<longrightarrow>
      handleZipEntry s (nm', ze')
        = Normal (pushOriginal s
            \<lparr>blob = \<lparr>blob_bytes = fileData,
                     blob_type = guessMimeTypeFromExt (toLowerCase (afterLastDot nm'))\<rparr>,
             originalName = nm', format = tag\<rparr>))
   \<and> (arrayBuffer br f = Some buf \<and> loadAsync br buf = Some files
        \<and> (\<forall>entry\<in>set files. \<not> dir (snd entry) \<and> spec_classify (fst entry) \<noteq> None
               \<longrightarrow> async_arraybuffer (snd entry) \<noteq> None) \<longrightarrow>
      handleZipFile br s f
        = s\<lparr>originalFiles := originalFiles s @ List.map_filter entryItem files,
             errorResults := errorResults s @ List.map_filter entryError files\<rparr>)
   \<and> getExtension nm = afterLastDot nm
   \<and> (CHR ''.'' \<notin> set nm \<longrightarrow> spec_classify nm = None)
   \<and> map spec_classify
        [''a.png'', ''b.JPG'', ''c.Jpeg'', ''d.WebP'', ''notes.txt'', ''README'', ''e.png.bak'']
       = [Some ''png'', Some ''jpeg'', Some ''jpeg'', Some ''webp'', None, None, None]"
proof (intro conjI impI)
  assume "\<not> dir ze \<and> spec_classify nm = None"
  then show "handleZipEntry s (nm, ze) = Normal (pushError s (UnsupportedExtension nm))"
    by (simp add: handleZipEntry_file)
next
  assume "\<not> dir ze' \<and> spec_classify nm' = Some tag \<and> async_arraybuffer ze' = Some fileData"
  then show "handleZipEntry s (nm', ze')
        = Normal (pushOriginal s
            \<lparr>blob = \<lparr>blob_bytes = fileData,
                     blob_type = guessMimeTypeFromExt (toLowerCase (afterLastDot nm'))\<rparr>,
             originalName = nm', format = tag\<rparr>)"
    by (simp add: handleZipEntry_file)
next
  assume a: "arrayBuffer br f = Some buf \<and> loadAsync br buf = Some files
        \<and> (\<forall>entry\<in>set files. \<not> dir (snd entry) \<and> spec_classify (fst entry) \<noteq> None
               \<longrightarrow> async_arraybuffer (snd entry) \<noteq> None)"
  then show "handleZipFile br s f
        = s\<lparr>originalFiles := originalFiles s @ List.map_filter entryItem files,
             errorResults := errorResults s @ List.map_filter entryError files\<rparr>"
    by (intro handleZipFile_readable[of br f buf files]) blast+
next
  show "getExtension nm = afterLastDot nm" by (rule getExtension_afterLastDot)
next
  assume "CHR ''.'' \<notin> set nm"
  then show "spec_classify nm = None" by (rule spec_classify_dotless)
next
  show "map spec_classify
        [''a.png'', ''b.JPG'', ''c.Jpeg'', ''d.WebP'', ''notes.txt'', ''README'', ''e.png.bak'']
       = [Some ''png'', Some ''jpeg'', Some ''jpeg'', Some ''webp'', None, None, None]"
    by (simp add: spec_classify_def afterLastDot_def toLowerCase_def toLowerChar_def)
qed

theorem archive_entry_classified_by_extension_witness:
  "originalFiles (handleZipFile exampleBrowser examplePage
      \<lparr>file_name = ''pics.zip'', file_type = ''application/zip'', file_bytes = [80, 75]\<rparr>)
     = [\<lparr>blob = \<lparr>blob_bytes = [1], blob_type = ''image/png''\<rparr>,
          originalName = ''photos/a.PNG'', format = ''png''\<rparr>,
        \<lparr>blob = \<lparr>blob_bytes = [3], blob_type = ''image/jpeg''\<rparr>,
          originalName = ''b.jpg'', format = ''jpeg''\<rparr>]
   \<and> errorResults (handleZipFile exampleBrowser examplePage
      \<lparr>file_name = ''pics.zip'', file_type = ''application/zip'', file_bytes = [80, 75]\<rparr>)
     = [UnsupportedExtension ''notes.txt'']
   \<and> handleZipEntry examplePage (''README'', \<lparr>dir = False, async_arraybuffer = Some [7]\<rparr>)
     = Normal (pushError examplePage (UnsupportedExtension ''README''))
   \<and> handleZipEntry examplePage (''shot.JPG'', \<lparr>dir = False, async_arraybuffer = Some [9]\<rparr>)
     = Normal (pushOriginal examplePage
         \<lparr>blob = \<lparr>blob_bytes = [9], blob_type = ''image/jpeg''\<rparr>,
          originalName = ''shot.JPG'', format = ''jpeg''\<rparr>)"
proof -
  let ?f = "\<lparr>file_name = ''pics.zip'', file_type = ''application/zip'', file_bytes = [80, 75]\<rparr>"
  let ?files = "[(''photos/'', \<lparr>dir = True, async_arraybuffer = None\<rparr>),
                 (''photos/a.PNG'', \<lparr>dir = False, async_arraybuffer = Some [1]\<rparr>),
                 (''notes.txt'', \<lparr>dir = False, async_arraybuffer = Some [2]\<rparr>),
                 (''b.jpg'', \<lparr>dir = False, async_arraybuffer = Some [3]\<rparr>)]"
  let ?ze = "\<lparr>dir = False, async_arraybuffer = Some [7]\<rparr>"
  let ?ze' = "\<lparr>dir = False, async_arraybuffer = Some [9]\<rparr>"
  have cl: "spec_classify ''photos/a.PNG'' = Some ''png''" "spec_classify ''notes.txt'' = None"
    "spec_classify ''b.jpg'' = Some ''jpeg''" "spec_classify ''photos/'' = None"
    by (simp_all add: spec_classify_def afterLastDot_def toLowerCase_def toLowerChar_def)
  have ex: "toLowerCase (afterLastDot ''photos/a.PNG'') = ''png''"
    "toLowerCase (afterLastDot ''b.jpg'') = ''jpg''"
    "toLowerCase (afterLastDot ''shot.JPG'') = ''jpg''"
    by (simp_all add: afterLastDot_def toLowerCase_def toLowerChar_def)
  have h: "arrayBuffer exampleBrowser ?f = Some [80, 75] \<and> loadAsync exampleBrowser [80, 75] = Some ?files
        \<and> (\<forall>entry\<in>set ?files. \<not> dir (snd entry) \<and> spec_classify (fst entry) \<noteq> None
               \<longrightarrow> async_arraybuffer (snd entry) \<noteq> None)"
    by (simp add: exampleBrowser_def)
  have n: "CHR ''.'' \<notin> set ''README''" by simp
  have a: "\<not> dir ?ze' \<and> spec_classify ''shot.JPG'' = Some ''jpeg'' \<and> async_arraybuffer ?ze' = Some [9]"
    by (simp add: spec_classify_def afterLastDot_def toLowerCase_def toLowerChar_def)
  from archive_entry_classified_by_extension[where nm = "''README''"] n
  have r: "spec_classify ''README'' = None" by blast
  then have d: "\<not> dir ?ze \<and> spec_classify ''README'' = None" by simp
  from archive_entry_classified_by_extension[where br = exampleBrowser and f = ?f
      and buf = "[80, 75]" and files = ?files and s = examplePage
      and nm = "''README''" and ze = ?ze and nm' = "''shot.JPG''" and ze' = ?ze'
      and tag = "''jpeg''" and fileData = "[9]"] h d a
  have 1: "handleZipFile exampleBrowser examplePage ?f
        = examplePage\<lparr>originalFiles := originalFiles examplePage @ List.map_filter entryItem ?files,
             errorResults := errorResults examplePage @ List.map_filter entryError ?files\<rparr>"
    and 2: "handleZipEntry examplePage (''README'', ?ze)
        = Normal (pushError examplePage (UnsupportedExtension ''README''))"
    and 3: "handleZipEntry examplePage (''shot.JPG'', ?ze')
        = Normal (pushOriginal examplePage
            \<lparr>blob = \<lparr>blob_bytes = [9],
                     blob_type = guessMimeTypeFromExt (toLowerCase (afterLastDot ''shot.JPG''))\<rparr>,
             originalName = ''shot.JPG'', format = ''jpeg''\<rparr>)"
    by blast+
  from 1 2 3 show ?thesis
    by (simp add: List.map_filter_simps entryItem_def entryError_def cl ex
        guessMimeTypeFromExt_def examplePage_def)
qed

section \<open>Packing: the names that reach it\<close>






end
